theory Spec2Isabelle
  imports Complex_Main
begin

section \<open>Python values\<close>

text \<open>
  The plug-in passes untyped Python values around: dialog responses, JSON documents and the
  settings dictionary. Scalars are \<open>None\<close>, booleans, unbounded integers, floats and
  strings. A finite double is a rational number, so a float is carried as a \<open>rat\<close>.
  A dictionary is kept as the list of its items in iteration order; the keys that occur in
  this program are \<open>None\<close>, booleans, integers and strings.
\<close>

datatype pykey = KNone | KBool bool | KInt int | KStr string

datatype pyval =
    PyNone
  | PyBool bool
  | PyInt int
  | PyFloat rat
  | PyStr string
  | PyList "pyval list"
  | PyDict "(pykey \<times> pyval) list"

text \<open>The exceptions that the modelled code can raise.\<close>

datatype py_exn =
    ValueError string
  | TypeError
  | AttributeError
  | IndexError
  | KeyError
  | ZeroDivisionError
  | JSONDecodeError
  | FileNotFoundError
  | URLError
  | GimpError

text \<open>Truth value of a Python object, as used by \<open>or\<close>, \<open>not\<close> and \<open>if\<close>.\<close>

fun truthy :: "pyval \<Rightarrow> bool" where
  "truthy PyNone = False"
| "truthy (PyBool b) = b"
| "truthy (PyInt n) = (n \<noteq> 0)"
| "truthy (PyFloat x) = (x \<noteq> 0)"
| "truthy (PyStr s) = (s \<noteq> [])"
| "truthy (PyList xs) = (xs \<noteq> [])"
| "truthy (PyDict kvs) = (kvs \<noteq> [])"

text \<open>\<open>a or b\<close>: the left operand when it is truthy, the right one otherwise.\<close>

definition py_or :: "pyval \<Rightarrow> pyval \<Rightarrow> pyval" where
  "py_or a b = (if truthy a then a else b)"

text \<open>\<open>str(n)\<close> of an integer: its decimal digits, with a leading minus sign below zero.\<close>

fun digits_of_nat :: "nat \<Rightarrow> string" where
  "digits_of_nat n =
     (if n < 10 then [''0123456789'' ! n]
      else digits_of_nat (n div 10) @ [''0123456789'' ! (n mod 10)])"

declare digits_of_nat.simps [simp del]

definition str_of_int :: "int \<Rightarrow> string" where
  "str_of_int n = (if n < 0 then CHR ''-'' # digits_of_nat (nat (- n)) else digits_of_nat (nat n))"

fun str_of_key :: "pykey \<Rightarrow> string" where
  "str_of_key KNone = ''None''"
| "str_of_key (KBool b) = (if b then ''True'' else ''False'')"
| "str_of_key (KInt n) = str_of_int n"
| "str_of_key (KStr s) = s"

text \<open>
  String methods. A \<open>char\<close> is a byte, so the whitespace stripped by \<open>strip()\<close> is
  the ASCII part of what \<open>str.isspace\<close> accepts, and \<open>lower()\<close> maps the ASCII capitals.
\<close>

definition py_isspace :: "char \<Rightarrow> bool" where
  "py_isspace c = (of_char c \<in> {9, 10, 11, 12, 13, 28, 29, 30, 31, 32 :: nat})"

definition strip :: "string \<Rightarrow> string" where
  "strip s = rev (dropWhile py_isspace (rev (dropWhile py_isspace s)))"

definition char_lower :: "char \<Rightarrow> char" where
  "char_lower c =
     (case map_of (zip ''ABCDEFGHIJKLMNOPQRSTUVWXYZ'' ''abcdefghijklmnopqrstuvwxyz'') c of
        Some l \<Rightarrow> l
      | None \<Rightarrow> c)"

definition lower :: "string \<Rightarrow> string" where
  "lower s = map char_lower s"

definition startswith :: "string \<Rightarrow> string \<Rightarrow> bool" where
  "startswith s p = (take (length p) s = p)"

text \<open>
  \<open>xs[i]\<close> on a list: a negative index counts from the end, an index outside the list
  raises \<open>IndexError\<close>.
\<close>

definition py_getitem :: "'a list \<Rightarrow> int \<Rightarrow> py_exn + 'a" where
  "py_getitem xs i =
     (if 0 \<le> i \<and> i < int (length xs) then Inr (xs ! nat i)
      else if i < 0 \<and> - int (length xs) \<le> i then Inr (xs ! nat (int (length xs) + i))
      else Inl IndexError)"

text \<open>\<open>xs.index(x)\<close>: the first position of \<open>x\<close>, \<open>ValueError\<close> when it is absent.\<close>

fun py_index :: "'a list \<Rightarrow> 'a \<Rightarrow> py_exn + nat" where
  "py_index [] x = Inl (ValueError ''not in list'')"
| "py_index (y # ys) x =
     (if y = x then Inr 0
      else (case py_index ys x of Inl e \<Rightarrow> Inl e | Inr i \<Rightarrow> Inr (Suc i)))"

text \<open>
  \<open>round(x)\<close> with one argument: the nearest integer, a tie going to the even neighbour.
\<close>

definition py_round :: "rat \<Rightarrow> int" where
  "py_round x =
     (let f = \<lfloor>x\<rfloor>; d = x - of_int f
      in if d < 1 / 2 then f
         else if 1 / 2 < d then f + 1
         else if even f then f else f + 1)"

text \<open>
  The dictionary built by \<open>dict(pairs)\<close>: a key seen again keeps its first position and
  takes the later value.
\<close>

fun dict_set :: "('k \<times> 'v) list \<Rightarrow> 'k \<Rightarrow> 'v \<Rightarrow> ('k \<times> 'v) list" where
  "dict_set [] k v = [(k, v)]"
| "dict_set ((k', v') # d) k v =
     (if k' = k then (k', v) # d else (k', v') # dict_set d k v)"

definition dict_of_pairs :: "('k \<times> 'v) list \<Rightarrow> ('k \<times> 'v) list" where
  "dict_of_pairs ps = foldl (\<lambda>d (k, v). dict_set d k v) [] ps"


section \<open>sd_gui_utils.py\<close>

text \<open>
  \<^verbatim>\<open>
  def as_strings_deeply(data: Any):
      if isinstance(data, str):
          return str(data)
      if not isinstance(data, dict):
          return data
      return dict((str(k), as_strings_deeply(v)) for k, v in data.items())
  \<close>
\<close>

fun as_strings_deeply :: "pyval \<Rightarrow> pyval" where
  "as_strings_deeply (PyStr s) = PyStr s"
| "as_strings_deeply (PyDict kvs) =
     PyDict (dict_of_pairs
       (map (\<lambda>kv. (KStr (str_of_key (fst kv)), as_strings_deeply (snd kv))) kvs))"
| "as_strings_deeply v = v"

text \<open>
  Whether every key of a dictionary, and of the dictionaries nested in its values, is a
  string. Lists are not looked into.
\<close>

fun str_keyed :: "pyval \<Rightarrow> bool" where
  "str_keyed (PyDict kvs) =
     list_all (\<lambda>kv. (case fst kv of KStr s \<Rightarrow> True | _ \<Rightarrow> False) \<and> str_keyed (snd kv)) kvs"
| "str_keyed v = True"

text \<open>
  \<^verbatim>\<open>
  def round_to_multiple(value, multiple):
      return multiple * round(float(value) / multiple)
  \<close>
  The argument \<open>value\<close> is the double \<open>float(value)\<close>. The callers pass the value of a
  dialog slider, which is a double already, or the width or height of a layer, which is a
  C \<open>int\<close> and converts without loss. They pass 8 or 64 as \<open>multiple\<close>: dividing a double by
  a power of two changes its exponent only, so the quotient is the exact one.
\<close>

definition round_to_multiple :: "rat \<Rightarrow> int \<Rightarrow> py_exn + int" where
  "round_to_multiple val multiple =
     (if multiple = 0 then Inl ZeroDivisionError
      else Inr (multiple * py_round (val / of_int multiple)))"


section \<open>Request fields\<close>

definition MAX_BATCH_SIZE :: int where
  "MAX_BATCH_SIZE = 20"

definition SAMPLERS :: "string list" where
  "SAMPLERS =
     [''Euler a'', ''Euler'', ''LMS'', ''Heun'', ''DPM2'', ''DPM2 a'', ''DPM++ 2S a'',
      ''DPM++ 2M'', ''DPM++ SDE'', ''DPM fast'', ''DPM adaptive'', ''LMS Karras'',
      ''DPM2 Karras'', ''DPM2 a Karras'', ''DPM++ 2S a Karras'', ''DPM++ 2M Karras'',
      ''DPM++ SDE Karras'', ''DDIM'']"

text \<open>
  \<open>image_to_image\<close>, \<open>inpainting\<close> and \<open>text_to_image\<close> build the request dictionary with
  the same five entries for size, sampler, batch size and seed:
  \<^verbatim>\<open>
  "width": round_to_multiple(width, 8),
  "height": round_to_multiple(height, 8),
  "sampler_index": StabDiffAuto1111.SAMPLERS[sampler_index],
  "batch_size": min(StabDiffAuto1111.MAX_BATCH_SIZE, max(1, batch_size)),
  "seed": seed or -1
  \<close>
  The record holds these entries; the entries are evaluated in this order, and the first
  one that raises ends the construction.
\<close>

record gen_request =
  req_width :: int
  req_height :: int
  req_sampler_index :: string
  req_batch_size :: int
  req_seed :: pyval

definition batch_size_entry :: "int \<Rightarrow> int" where
  "batch_size_entry batch_size = min MAX_BATCH_SIZE (max 1 batch_size)"

definition seed_entry :: "pyval \<Rightarrow> pyval" where
  "seed_entry seed = py_or seed (PyInt (- 1))"

definition request_entries :: "rat \<Rightarrow> rat \<Rightarrow> int \<Rightarrow> int \<Rightarrow> pyval \<Rightarrow> py_exn + gen_request" where
  "request_entries width height sampler_index batch_size seed =
     (case round_to_multiple width 8 of
        Inl e \<Rightarrow> Inl e
      | Inr w \<Rightarrow>
     (case round_to_multiple height 8 of
        Inl e \<Rightarrow> Inl e
      | Inr h \<Rightarrow>
     (case py_getitem SAMPLERS sampler_index of
        Inl e \<Rightarrow> Inl e
      | Inr name \<Rightarrow>
          Inr \<lparr>req_width = w, req_height = h, req_sampler_index = name,
               req_batch_size = batch_size_entry batch_size,
               req_seed = seed_entry seed\<rparr>)))"

text \<open>The logger: each call appends one entry; \<open>exception\<close> logs at error level with the
  traceback.\<close>

datatype log_entry =
    Debug string
  | Info string
  | Warning string
  | Error string
  | Exception string


section \<open>The settings store: \<open>MyShelf\<close>\<close>

text \<open>
  Dictionary keys are compared as Python compares them: \<open>True\<close> equals \<open>1\<close> and \<open>False\<close>
  equals \<open>0\<close>; a string equals only the same string, \<open>None\<close> only \<open>None\<close>.
\<close>

fun key_eq :: "pykey \<Rightarrow> pykey \<Rightarrow> bool" where
  "key_eq (KBool b) (KInt n) = (n = (if b then 1 else 0))"
| "key_eq (KInt n) (KBool b) = (n = (if b then 1 else 0))"
| "key_eq k k' = (k = k')"

text \<open>
  \<open>d[k] = v\<close> replaces the value at a key equal to \<open>k\<close>, keeping the key that is there, or
  appends the new key; \<open>d.update(x)\<close> does so for each item of \<open>x\<close> in turn.
\<close>

fun py_setitem :: "(pykey \<times> pyval) list \<Rightarrow> pykey \<Rightarrow> pyval \<Rightarrow> (pykey \<times> pyval) list" where
  "py_setitem [] k v = [(k, v)]"
| "py_setitem ((k', v') # d) k v =
     (if key_eq k' k then (k', v) # d else (k', v') # py_setitem d k v)"

definition py_update :: "(pykey \<times> pyval) list \<Rightarrow> (pykey \<times> pyval) list \<Rightarrow> (pykey \<times> pyval) list" where
  "py_update d x = foldl (\<lambda>d (k, v). py_setitem d k v) d x"

text \<open>\<open>name in t\<close> for two strings: whether \<open>name\<close> occurs in \<open>t\<close>.\<close>

definition str_contains :: "string \<Rightarrow> string \<Rightarrow> bool" where
  "str_contains t name = list_ex (\<lambda>i. startswith (drop i t) name) [0 ..< Suc (length t)]"

text \<open>Whether every key of the items of a dictionary is a string.\<close>

definition str_keys :: "(pykey \<times> pyval) list \<Rightarrow> bool" where
  "str_keys kvs = list_all (\<lambda>kv. case fst kv of KStr s \<Rightarrow> True | _ \<Rightarrow> False) kvs"

definition STABLE_DIFF_AUTO1111_DEFAULT_SETTINGS :: "(pykey \<times> pyval) list" where
  "STABLE_DIFF_AUTO1111_DEFAULT_SETTINGS =
     [(KStr ''api_base'', PyStr ''http://127.0.0.1:7860''),
      (KStr ''batch_size'', PyInt 1),
      (KStr ''cfg_scale'', PyFloat (15 / 2)),
      (KStr ''cn_models'', PyList []),
      (KStr ''denoising_strength'', PyFloat (4 / 5)),
      (KStr ''height'', PyInt 512),
      (KStr ''is_server_running'', PyBool False),
      (KStr ''mask_blur'', PyInt 4),
      (KStr ''model'', PyStr []),
      (KStr ''models'', PyList []),
      (KStr ''negative_prompt'', PyStr []),
      (KStr ''prompt'', PyStr []),
      (KStr ''sampler_name'', PyStr ''Euler a''),
      (KStr ''sd_model_checkpoint'', PyNone),
      (KStr ''seed'', PyInt (- 1)),
      (KStr ''steps'', PyInt 50),
      (KStr ''width'', PyInt 512)]"

text \<open>
  The settings file on disk is absent, or holds text that \<open>json.load\<close> cannot read, or holds
  text that \<open>json.load\<close> reads as a value; that value is whatever JSON text the file holds,
  an object or not. \<open>writable\<close> tells whether \<open>open(file_path, "w")\<close> succeeds; when it does
  not, the file stays as it was.

  \<open>self.data\<close> is a reference to an object: \<open>load\<close> makes it refer to the very dictionary
  that the caller passed as \<open>default_shelf\<close>, and \<open>save\<close> updates the dictionary it refers
  to in place. The state therefore holds a store of objects, \<open>heap\<close>, with the next unused
  address, and \<open>data\<close> is an address in it.
\<close>

datatype settings_file = Missing | Unreadable | Stored pyval

record shelf =
  heap :: "nat \<Rightarrow> pyval"
  next_addr :: nat
  data :: nat
  file_path :: string
  disk :: settings_file
  writable :: bool
  shelf_log :: "log_entry list"

text \<open>The object that \<open>self.data\<close> refers to.\<close>

definition shelf_data :: "shelf \<Rightarrow> pyval" where
  "shelf_data s = heap s (data s)"

text \<open>
  \<^verbatim>\<open>
  def load(self, default_shelf={}):
      self.data = default_shelf
      try:
          if os.path.isfile(self.file_path):
              LOGGER.debug("Loading shelf from %s" % self.file_path)
              with open(self.file_path, "r") as f:
                  self.data = json.load(f)
              LOGGER.info("Successfully loaded shelf from %s" % self.file_path)
          else:
              LOGGER.warning("Did not find %s" % self.file_path)
      except Exception as e:
          LOGGER.exception("Error reading %s" % self.file_path)
  \<close>
  \<open>default_shelf\<close> is the address of the caller's dictionary. The value that \<open>json.load\<close>
  builds is a new object.
\<close>

definition MyShelf_load :: "nat \<Rightarrow> shelf \<Rightarrow> shelf" where
  "MyShelf_load default_shelf s =
     (case disk s of
        Missing \<Rightarrow>
          s\<lparr>data := default_shelf,
            shelf_log := shelf_log s @ [Warning (''Did not find '' @ file_path s)]\<rparr>
      | Unreadable \<Rightarrow>
          s\<lparr>data := default_shelf,
            shelf_log := shelf_log s @
              [Debug (''Loading shelf from '' @ file_path s),
               Exception (''Error reading '' @ file_path s)]\<rparr>
      | Stored v \<Rightarrow>
          s\<lparr>heap := (heap s)(next_addr s := v),
            next_addr := Suc (next_addr s),
            data := next_addr s,
            shelf_log := shelf_log s @
              [Debug (''Loading shelf from '' @ file_path s),
               Info (''Successfully loaded shelf from '' @ file_path s)]\<rparr>)"

text \<open>
  \<^verbatim>\<open>
  def save(self, data={}):
      try:
          self.data.update(data)
          LOGGER.info("Saving shelf to %s" % self.file_path)
          with open(self.file_path, "w") as f:
              json.dump(self.data, f, indent=2, sort_keys=True)
          LOGGER.info("Successfully saved shelf to %s" % self.file_path)
      except Exception as e:
          LOGGER.exception(e)
  \<close>
  Only a dictionary has \<open>update\<close>; on any other object the attribute lookup raises before
  the file is opened. Opening the file for writing empties it. What \<open>json.dump\<close> does with
  the dictionary is a parameter, \<open>json_dump\<close>: \<open>None\<close> when \<open>json.dump\<close> raises, which
  leaves the file with text that cannot be read, and otherwise the value that \<open>json.load\<close>
  reads from the text written. That value need not be the dictionary written: JSON turns a
  key that is not a string into a string, and with \<open>sort_keys\<close> the keys come back sorted.
  The argument \<open>x\<close> holds the items of the dictionary passed as \<open>data\<close>. An exception logs
  one entry that names it.
\<close>

definition MyShelf_save :: "(pyval \<Rightarrow> pyval option) \<Rightarrow> (pykey \<times> pyval) list \<Rightarrow> shelf \<Rightarrow> shelf" where
  "MyShelf_save json_dump x s =
     (case heap s (data s) of
        PyDict kvs \<Rightarrow>
          (let d = PyDict (py_update kvs x);
               s1 = s\<lparr>heap := (heap s)(data s := d),
                      shelf_log := shelf_log s @ [Info (''Saving shelf to '' @ file_path s)]\<rparr>
           in if \<not> writable s then s1\<lparr>shelf_log := shelf_log s1 @ [Exception ''OSError'']\<rparr>
              else
                (case json_dump d of
                   None \<Rightarrow>
                     s1\<lparr>disk := Unreadable, shelf_log := shelf_log s1 @ [Exception ''TypeError'']\<rparr>
                 | Some v \<Rightarrow>
                     s1\<lparr>disk := Stored v,
                        shelf_log := shelf_log s1 @
                          [Info (''Successfully saved shelf to '' @ file_path s)]\<rparr>))
      | _ \<Rightarrow> s\<lparr>shelf_log := shelf_log s @ [Exception ''AttributeError'']\<rparr>)"

text \<open>
  \<^verbatim>\<open>
  def __init__(self, default_shelf={}):
      self.data: Dict = None
      self.file_path = os.path.join(..., 'stable_diffusion_auto1111.json')
      self.load(default_shelf)
  \<close>
  The new shelf is made in a store \<open>h\<close> whose next unused address is \<open>n\<close>; \<open>None\<close> takes
  that address.
\<close>

definition MyShelf_init :: "nat \<Rightarrow> (nat \<Rightarrow> pyval) \<Rightarrow> nat \<Rightarrow> string \<Rightarrow> settings_file \<Rightarrow> bool \<Rightarrow> shelf" where
  "MyShelf_init default_shelf h n path f w =
     MyShelf_load default_shelf
       \<lparr>heap = h(n := PyNone), next_addr = Suc n, data = n, file_path = path, disk = f,
        writable = w, shelf_log = []\<rparr>"

text \<open>
  \<^verbatim>\<open>
  def get(self, name, default_value=None):
      if name in self.data:
          return self.data[name]
      return default_value
  \<close>
  \<open>name\<close> is a string. In a dictionary it is a key or not. In a list it is an element or
  not, and in a string it occurs or not; when it does, indexing with a string raises
  \<open>TypeError\<close>. The other objects do not support \<open>in\<close>.
\<close>

definition MyShelf_get :: "shelf \<Rightarrow> string \<Rightarrow> pyval \<Rightarrow> py_exn + pyval" where
  "MyShelf_get s name default_value =
     (case heap s (data s) of
        PyDict kvs \<Rightarrow>
          (case map_of kvs (KStr name) of Some v \<Rightarrow> Inr v | None \<Rightarrow> Inr default_value)
      | PyList xs \<Rightarrow> if PyStr name \<in> set xs then Inl TypeError else Inr default_value
      | PyStr t \<Rightarrow> if str_contains t name then Inl TypeError else Inr default_value
      | _ \<Rightarrow> Inl TypeError)"


section \<open>Reaching the server\<close>

text \<open>
  \<open>request.urlopen(url=url_in, timeout=3)\<close> either opens the URL, or raises \<open>URLError\<close>
  (which includes \<open>HTTPError\<close>), or raises something else. The network is a parameter
  \<open>urlopen\<close> of the functions below, and the state records the URLs that were opened.
  \<^verbatim>\<open>
  def server_online(url_in: str):
      try:
          request.urlopen(url=url_in, timeout=3)
          return True
      except error.URLError:
          logging.getLogger("URLError").exception("Could not connect to %s" % url_in)
          return False
  \<close>
\<close>

datatype probe_result = Opened | RaisedURLError | Raised py_exn

record plugin =
  settings :: shelf
  is_server_running :: bool
  probes :: "string list"
  plugin_log :: "log_entry list"

definition server_online :: "(string \<Rightarrow> probe_result) \<Rightarrow> string \<Rightarrow> plugin \<Rightarrow> (py_exn + bool) \<times> plugin" where
  "server_online urlopen url_in p =
     (let p1 = p\<lparr>probes := probes p @ [url_in]\<rparr> in
      case urlopen url_in of
        Opened \<Rightarrow> (Inr True, p1)
      | RaisedURLError \<Rightarrow>
          (Inr False,
           p1\<lparr>plugin_log := plugin_log p1 @ [Exception (''Could not connect to '' @ url_in)]\<rparr>)
      | Raised e \<Rightarrow> (Inl e, p1))"

text \<open>
  \<^verbatim>\<open>
  def poll_server(self):
      server_url: str = self.settings.get("api_base")
      if server_url is None:
          raise ValueError("api_base setting is missing.")
      if server_url.strip() == "":
          raise ValueError("api_base setting is blank.")
      if not server_url.lower().startswith("http://"):
          raise ValueError("api_base setting \"%s\" is not a valid http URL." % server_url)
      self.is_server_running = server_online(server_url)
      return self.is_server_running
  \<close>
  A stored value that is neither \<open>None\<close> nor a string has no \<open>strip\<close> method, and
  \<open>get\<close> itself raises on some settings objects that are not dictionaries.
\<close>

definition poll_server :: "(string \<Rightarrow> probe_result) \<Rightarrow> plugin \<Rightarrow> (py_exn + bool) \<times> plugin" where
  "poll_server urlopen p =
     (case MyShelf_get (settings p) ''api_base'' PyNone of
        Inl e \<Rightarrow> (Inl e, p)
      | Inr PyNone \<Rightarrow> (Inl (ValueError ''api_base setting is missing.''), p)
      | Inr (PyStr server_url) \<Rightarrow>
          if strip server_url = [] then (Inl (ValueError ''api_base setting is blank.''), p)
          else if \<not> startswith (lower server_url) ''http://'' then
            (Inl (ValueError (''api_base setting '' @ [CHR 0x22] @ server_url @ [CHR 0x22]
                              @ '' is not a valid http URL.'')), p)
          else
            (case server_online urlopen server_url p of
               (Inl e, p1) \<Rightarrow> (Inl e, p1)
             | (Inr b, p1) \<Rightarrow> (Inr b, p1\<lparr>is_server_running := b\<rparr>))
      | Inr _ \<Rightarrow> (Inl AttributeError, p))"


section \<open>The API client\<close>

text \<open>
  A request carries its URL, the dictionary that is sent as JSON text, and its headers. The
  server's final answer carries the status line, the headers as \<open>str\<close> prints them, and the
  body as \<open>json.loads\<close> reads it (\<open>None\<close> when the body is not JSON). \<open>urlopen\<close> returns the
  answer when its status is in 200 to 299 and raises \<open>HTTPError\<close> with the answer's URL,
  code, reason and headers otherwise; it raises \<open>URLError\<close> when no answer arrives.
\<close>

record http_request =
  rq_url :: string
  rq_data :: pyval
  rq_headers :: "(string \<times> string) list"

record http_response =
  rs_url :: string
  rs_code :: int
  rs_reason :: string
  rs_headers :: string
  rs_json :: "pyval option"

datatype net_outcome = Answered http_response | Unreachable

record api_client =
  base_url :: string
  sent :: "http_request list"
  api_log :: "log_entry list"

text \<open>
  \<^verbatim>\<open>
  def post(self, endpoint, dict_in={}, params={}, headers=None):
      try:
          url = self.base_url + endpoint + "?" + urllib.parse.urlencode(params)
          LOGGER.warning("POST %s" % url)
          json_str: str = json.dumps(dict_in, sort_keys=True, indent=2)
          json_bytes: bytes = json_str.encode('utf-8')
          headers = headers or {"Content-Type": "application/json", "Accept": "application/json"}
          request_out = urllib.request.Request(url=url, data=json_bytes, headers=headers)
          response = urlopen(request_out)
          response_json_str = response.read()
          response_dict = json.loads(response_json_str)
          return response_dict
      except urllib.error.HTTPError as ex:
          LOGGER.exception("ERROR: ApiClient.post()")
          message = "url=%s, code=%d, reason=%s" % (ex.url, ex.code, ex.reason)
          LOGGER.error(message)
          LOGGER.error(str(ex.headers))
  \<close>
  The argument \<open>query\<close> is \<open>urllib.parse.urlencode(params)\<close>, the empty string for the
  default \<open>params\<close>. The temporary copies of the request that the \<open>DEBUG\<close> switch writes
  before the request is sent are left out. Falling off the end of the handler returns
  \<open>None\<close>.
\<close>

definition ApiClient_post ::
  "(http_request \<Rightarrow> net_outcome) \<Rightarrow> string \<Rightarrow> pyval \<Rightarrow> string \<Rightarrow> (string \<times> string) list
     \<Rightarrow> api_client \<Rightarrow> (py_exn + pyval) \<times> api_client" where
  "ApiClient_post urlopen endpoint dict_in query headers c =
     (let url = base_url c @ endpoint @ ''?'' @ query;
          c1 = c\<lparr>api_log := api_log c @ [Warning (''POST '' @ url)]\<rparr>;
          hs = (if headers \<noteq> [] then headers
                else [(''Content-Type'', ''application/json''), (''Accept'', ''application/json'')]);
          request_out = \<lparr>rq_url = url, rq_data = dict_in, rq_headers = hs\<rparr>;
          c2 = c1\<lparr>sent := sent c1 @ [request_out]\<rparr>
      in case urlopen request_out of
           Unreachable \<Rightarrow> (Inl URLError, c2)
         | Answered r \<Rightarrow>
             if 200 \<le> rs_code r \<and> rs_code r < 300 then
               (case rs_json r of
                  None \<Rightarrow> (Inl JSONDecodeError, c2)
                | Some response_dict \<Rightarrow> (Inr response_dict, c2))
             else
               (Inr PyNone,
                c2\<lparr>api_log := api_log c2 @
                  [Exception ''ERROR: ApiClient.post()'',
                   Error (''url='' @ rs_url r @ '', code='' @ str_of_int (rs_code r)
                          @ '', reason='' @ rs_reason r),
                   Error (rs_headers r)]\<rparr>))"


section \<open>Layers of the editor\<close>

text \<open>
  The editor owns the layer objects; the plug-in holds references to them. A reference is a
  number, \<open>objs\<close> gives the object behind each reference, and \<open>stack\<close> lists the references
  of the layers that are in the image, as \<open>image.list_layers()\<close> returns them. The editor
  hands out \<open>next_layer\<close> as the reference of the next object it creates. The parasite of a
  layer is the JSON value that the plug-in attached under the name \<open>stabdiffauto1111\<close>.
  \<open>layer_count\<close> is the plug-in's counter, from which each \<open>LayerLocal\<close> takes its id.
\<close>

record layer =
  layer_name :: string
  layer_width :: int
  layer_height :: int
  layer_pixels :: string
  layer_mask :: "string option"
  layer_parasite :: "pyval option"

record gimp =
  objs :: "nat \<Rightarrow> layer"
  stack :: "nat list"
  next_layer :: nat
  layer_count :: nat
  gimp_log :: "log_entry list"

record layer_local =
  ll_id :: nat
  ll_layer :: nat

definition LayerLocal :: "nat \<Rightarrow> gimp \<Rightarrow> layer_local \<times> gimp" where
  "LayerLocal layer_in g =
     (\<lparr>ll_id = layer_count g, ll_layer = layer_in\<rparr>, g\<lparr>layer_count := layer_count g + 1\<rparr>)"

text \<open>
  \<open>from_base64\<close> decodes the image into a temporary file and has the editor load it as a
  new layer, which is not yet in the image. The parameter \<open>file_load\<close> is
  \<open>base64.b64decode\<close> followed by \<open>Gimp.file_load_layer\<close>: the width, height and pixels of
  the layer, or \<open>None\<close> when either of them raises.
\<close>

definition LayerLocal_from_base64 ::
  "(string \<Rightarrow> (int \<times> int \<times> string) option) \<Rightarrow> string \<Rightarrow> gimp \<Rightarrow> py_exn + layer_local \<times> gimp" where
  "LayerLocal_from_base64 file_load base64_data g =
     (case file_load base64_data of
        None \<Rightarrow> Inl GimpError
      | Some (w, h, px) \<Rightarrow>
          let n = next_layer g;
              l = \<lparr>layer_name = ''generated.png'', layer_width = w, layer_height = h,
                   layer_pixels = px, layer_mask = None, layer_parasite = None\<rparr>
          in Inr (LayerLocal n (g\<lparr>objs := (objs g)(n := l), next_layer := n + 1\<rparr>)))"

definition LayerLocal_rename :: "string \<Rightarrow> layer_local \<Rightarrow> gimp \<Rightarrow> gimp" where
  "LayerLocal_rename name ll g =
     g\<lparr>objs := (objs g)(ll_layer ll := (objs g (ll_layer ll))\<lparr>layer_name := name\<rparr>)\<rparr>"

definition LayerLocal_save_data :: "pyval \<Rightarrow> layer_local \<Rightarrow> gimp \<Rightarrow> gimp" where
  "LayerLocal_save_data d ll g =
     g\<lparr>objs := (objs g)(ll_layer ll := (objs g (ll_layer ll))\<lparr>layer_parasite := Some d\<rparr>)\<rparr>"

text \<open>
  \<open>load_data\<close> reads the parasite, or takes the defaults when the layer has none, passes
  the value through \<open>as_strings_deeply\<close> and returns its \<open>copy()\<close>, a method that only
  dictionaries and lists have.
\<close>

definition LayerLocal_load_data :: "pyval \<Rightarrow> layer_local \<Rightarrow> gimp \<Rightarrow> py_exn + pyval" where
  "LayerLocal_load_data default_data ll g =
     (case as_strings_deeply
             (case layer_parasite (objs g (ll_layer ll)) of None \<Rightarrow> default_data | Some d \<Rightarrow> d) of
        PyDict kvs \<Rightarrow> Inr (PyDict kvs)
      | PyList xs \<Rightarrow> Inr (PyList xs)
      | _ \<Rightarrow> Inl AttributeError)"

definition LayerLocal_copy :: "layer_local \<Rightarrow> gimp \<Rightarrow> layer_local \<times> gimp" where
  "LayerLocal_copy ll g =
     (let n = next_layer g
      in LayerLocal n (g\<lparr>objs := (objs g)(n := objs g (ll_layer ll)), next_layer := n + 1\<rparr>))"

text \<open>
  \<^verbatim>\<open>
  def resize_to_multiple_of(self, multiple):
      self._layer.scale(round_to_multiple(self.layer.get_width(), multiple),
                        round_to_multiple(self.layer.get_height(), multiple),
                        False)
      return self
  \<close>
\<close>

definition LayerLocal_resize_to_multiple_of :: "int \<Rightarrow> layer_local \<Rightarrow> gimp \<Rightarrow> py_exn + gimp" where
  "LayerLocal_resize_to_multiple_of multiple ll g =
     (let l = objs g (ll_layer ll) in
      case round_to_multiple (of_int (layer_width l)) multiple of
        Inl e \<Rightarrow> Inl e
      | Inr w \<Rightarrow>
     (case round_to_multiple (of_int (layer_height l)) multiple of
        Inl e \<Rightarrow> Inl e
      | Inr h \<Rightarrow>
          Inr (g\<lparr>objs := (objs g)(ll_layer ll := l\<lparr>layer_width := w, layer_height := h\<rparr>)\<rparr>)))"

text \<open>\<open>insert\<close> and \<open>insert_to\<close> put the layer into the image, \<open>remove\<close> takes it out.\<close>

definition LayerLocal_insert :: "layer_local \<Rightarrow> gimp \<Rightarrow> gimp" where
  "LayerLocal_insert ll g = g\<lparr>stack := ll_layer ll # stack g\<rparr>"

definition LayerLocal_remove :: "layer_local \<Rightarrow> gimp \<Rightarrow> gimp" where
  "LayerLocal_remove ll g = g\<lparr>stack := remove1 (ll_layer ll) (stack g)\<rparr>"

text \<open>
  \<open>to_base64\<close> and \<open>mask_to_base64\<close> have the editor save the layer, or its mask, to a
  temporary file, open that file and encode its bytes. The parameters \<open>export\<close> and
  \<open>export_mask\<close> give the encoded text of a layer, or \<open>None\<close> when the editor wrote no file,
  where \<open>open\<close> raises.
\<close>

definition LayerLocal_to_base64 :: "(layer \<Rightarrow> string option) \<Rightarrow> layer_local \<Rightarrow> gimp \<Rightarrow> py_exn + string" where
  "LayerLocal_to_base64 export ll g =
     (case export (objs g (ll_layer ll)) of None \<Rightarrow> Inl FileNotFoundError | Some b \<Rightarrow> Inr b)"

definition LayerLocal_mask_to_base64 :: "(layer \<Rightarrow> string option) \<Rightarrow> layer_local \<Rightarrow> gimp \<Rightarrow> py_exn + string" where
  "LayerLocal_mask_to_base64 export_mask ll g =
     (case export_mask (objs g (ll_layer ll)) of None \<Rightarrow> Inl FileNotFoundError | Some b \<Rightarrow> Inr b)"

section \<open>The control unit extractor\<close>

definition CONTROLNET_DEFAULT_SETTINGS :: pyval where
  "CONTROLNET_DEFAULT_SETTINGS =
     PyDict
      [(KStr ''input_image'', PyStr []),
       (KStr ''mask'', PyStr []),
       (KStr ''module'', PyStr ''none''),
       (KStr ''model'', PyStr ''none''),
       (KStr ''weight'', PyFloat 1),
       (KStr ''resize_mode'', PyStr ''Scale to Fit (Inner Fit)''),
       (KStr ''lowvram'', PyBool False),
       (KStr ''processor_res'', PyInt 64),
       (KStr ''threshold_a'', PyInt 64),
       (KStr ''threshold_b'', PyInt 64),
       (KStr ''guidance'', PyFloat 1),
       (KStr ''guidance_start'', PyFloat 0),
       (KStr ''guidance_end'', PyFloat 1),
       (KStr ''control_mode'', PyInt 0)]"

text \<open>
  \<^verbatim>\<open>
  def get_control_net_params(self, cn_layer: Gimp.Layer):
      if cn_layer:
          if not isinstance(cn_layer, Gimp.Layer):
              raise ValueError(...)
          layer = StabDiffAuto1111.LayerLocal(self, cn_layer)
          data = layer.load_data(StabDiffAuto1111.CONTROLNET_DEFAULT_SETTINGS)
          # ControlNet image size need to be in multiples of 64
          layer64 = layer.copy().insert().resize_to_multiple_of(64)
          data.update({"input_image": layer64.to_base64()})
          if cn_layer.get_mask():
              data.update({"mask": layer64.mask_to_base64()})
          layer64.remove()
          return data
      return None
  \<close>
  The argument is a layer reference or \<open>None\<close>. The result pairs what the call returns or
  raises with the state it leaves. \<open>data.update\<close> looks the method up before its argument
  is evaluated, so a value without \<open>update\<close> raises before the layer is encoded.
\<close>

definition get_control_net_params ::
  "(layer \<Rightarrow> string option) \<Rightarrow> (layer \<Rightarrow> string option) \<Rightarrow> nat option \<Rightarrow> gimp
     \<Rightarrow> (py_exn + pyval) \<times> gimp" where
  "get_control_net_params export export_mask cn_layer g =
     (case cn_layer of
        None \<Rightarrow> (Inr PyNone, g)
      | Some h \<Rightarrow>
         (let (layer, g1) = LayerLocal h g in
          (case LayerLocal_load_data CONTROLNET_DEFAULT_SETTINGS layer g1 of
             Inl e \<Rightarrow> (Inl e, g1)
           | Inr d \<Rightarrow>
              (let (layer64, g2) = LayerLocal_copy layer g1;
                   g3 = LayerLocal_insert layer64 g2
               in (case LayerLocal_resize_to_multiple_of 64 layer64 g3 of
                     Inl e \<Rightarrow> (Inl e, g3)
                   | Inr g4 \<Rightarrow>
                      (case d of
                         PyDict kvs \<Rightarrow>
                          (case LayerLocal_to_base64 export layer64 g4 of
                             Inl e \<Rightarrow> (Inl e, g4)
                           | Inr img \<Rightarrow>
                              (let kvs1 = dict_set kvs (KStr ''input_image'') (PyStr img) in
                               if layer_mask (objs g4 h) \<noteq> None then
                                 (case LayerLocal_mask_to_base64 export_mask layer64 g4 of
                                    Inl e \<Rightarrow> (Inl e, g4)
                                  | Inr m \<Rightarrow>
                                      (Inr (PyDict (dict_set kvs1 (KStr ''mask'') (PyStr m))),
                                       LayerLocal_remove layer64 g4))
                               else (Inr (PyDict kvs1), LayerLocal_remove layer64 g4)))
                       | _ \<Rightarrow> (Inl AttributeError, g4)))))))"


section \<open>The response materializer\<close>

text \<open>
  The decoded response: the \<open>images\<close> array, and the \<open>infotexts\<close> and \<open>all_seeds\<close> arrays of
  its \<open>info\<close> field. The options are a dictionary, empty when the caller passes none.
  \<^verbatim>\<open>
  layers = []
  try:
      info = json.loads(response["info"])
      infotexts = info["infotexts"]
      seeds = info["all_seeds"]
      index = 0
      total_images = len(seeds)
      for image in response["images"]:
          if index < total_images:
              layer_data = {"info": infotexts[index], "seed": seeds[index]}
              layer_local = StabDiffAuto1111.LayerLocal.from_base64(self._chassis, img, image).rename(
                  "Generated Layer " + str(seeds[index])).save_data(
                  layer_data).insert_to(img)
          else:
              layer_local = None
              # annotator layers
              if "skip_annotator_layers" in options and not options["skip_annotator_layers"]:
                  layer_local = StabDiffAuto1111.LayerLocal.from_base64(self._chassis, img, image).rename(
                      "Annotator Layer").insert_to(img)
          layers.append(layer_local.layer)
          index += 1
  except Exception as e:
      StabDiffAuto1111.LOGGER.exception("ResponseLayers")
  self.layers = layers
  \<close>
  \<open>response_loop\<close> is the \<open>for\<close> loop from position \<open>index\<close> on: it returns the exception
  that ended it, if any, the state, and the list \<open>layers\<close>. When \<open>layer_local\<close> is still
  \<open>None\<close> at \<open>layer_local.layer\<close>, that attribute access raises.
\<close>

record gen_response =
  images :: "string list"
  infotexts :: "string list"
  all_seeds :: "int list"

definition insert_annotators :: "(string \<rightharpoonup> pyval) \<Rightarrow> bool" where
  "insert_annotators options =
     (case options ''skip_annotator_layers'' of None \<Rightarrow> False | Some v \<Rightarrow> \<not> truthy v)"

fun response_loop ::
  "(string \<Rightarrow> (int \<times> int \<times> string) option) \<Rightarrow> gen_response \<Rightarrow> (string \<rightharpoonup> pyval) \<Rightarrow> nat
     \<Rightarrow> string list \<Rightarrow> gimp \<Rightarrow> nat list \<Rightarrow> py_exn option \<times> gimp \<times> nat list" where
  "response_loop file_load response options index [] g layers = (None, g, layers)"
| "response_loop file_load response options index (image_b64 # rest) g layers =
     (if index < length (all_seeds response) then
        (case py_getitem (infotexts response) (int index) of
           Inl e \<Rightarrow> (Some e, g, layers)
         | Inr info \<Rightarrow>
            (let seed = all_seeds response ! index;
                 layer_data = PyDict [(KStr ''info'', PyStr info), (KStr ''seed'', PyInt seed)]
             in (case LayerLocal_from_base64 file_load image_b64 g of
                   Inl e \<Rightarrow> (Some e, g, layers)
                 | Inr (layer_local, g1) \<Rightarrow>
                    (let g2 = LayerLocal_rename (''Generated Layer '' @ str_of_int seed)
                                layer_local g1;
                         g3 = LayerLocal_save_data layer_data layer_local g2;
                         g4 = LayerLocal_insert layer_local g3
                     in response_loop file_load response options (index + 1) rest g4
                          (layers @ [ll_layer layer_local])))))
      else if insert_annotators options then
        (case LayerLocal_from_base64 file_load image_b64 g of
           Inl e \<Rightarrow> (Some e, g, layers)
         | Inr (layer_local, g1) \<Rightarrow>
            (let g2 = LayerLocal_rename ''Annotator Layer'' layer_local g1;
                 g3 = LayerLocal_insert layer_local g2
             in response_loop file_load response options (index + 1) rest g3
                  (layers @ [ll_layer layer_local])))
      else (Some AttributeError, g, layers))"

definition ResponseLayers ::
  "(string \<Rightarrow> (int \<times> int \<times> string) option) \<Rightarrow> gen_response \<Rightarrow> (string \<rightharpoonup> pyval) \<Rightarrow> gimp
     \<Rightarrow> gimp \<times> nat list" where
  "ResponseLayers file_load response options g =
     (case response_loop file_load response options 0 (images response) g [] of
        (None, g1, layers) \<Rightarrow> (g1, layers)
      | (Some e, g1, layers) \<Rightarrow>
          (g1\<lparr>gimp_log := gimp_log g1 @ [Exception ''ResponseLayers'']\<rparr>, layers))"

text \<open>
  What the loop is to make of a loaded image: a generated layer, named from its seed and
  carrying the seed and the info text as metadata, or an annotator layer without metadata.
\<close>

definition generated_layer :: "int \<times> int \<times> string \<Rightarrow> string \<Rightarrow> int \<Rightarrow> layer" where
  "generated_layer im info seed =
     \<lparr>layer_name = ''Generated Layer '' @ str_of_int seed,
      layer_width = fst im, layer_height = fst (snd im), layer_pixels = snd (snd im),
      layer_mask = None,
      layer_parasite = Some (PyDict [(KStr ''info'', PyStr info), (KStr ''seed'', PyInt seed)])\<rparr>"

definition annotator_layer :: "int \<times> int \<times> string \<Rightarrow> layer" where
  "annotator_layer im =
     \<lparr>layer_name = ''Annotator Layer'',
      layer_width = fst im, layer_height = fst (snd im), layer_pixels = snd (snd im),
      layer_mask = None, layer_parasite = None\<rparr>"

definition materialized :: "(string \<Rightarrow> (int \<times> int \<times> string) option) \<Rightarrow> gen_response \<Rightarrow> nat \<Rightarrow> layer option" where
  "materialized file_load response j =
     (case file_load (images response ! j) of
        None \<Rightarrow> None
      | Some im \<Rightarrow>
          Some (if j < length (all_seeds response)
                then generated_layer im (infotexts response ! j) (all_seeds response ! j)
                else annotator_layer im))"

text \<open>
  How many layers the loop makes from position \<open>index\<close> on, of \<open>len\<close> images left, with
  \<open>k\<close> seeds: all of them when annotator images are inserted, otherwise those below \<open>k\<close>.
\<close>

definition made_count :: "bool \<Rightarrow> nat \<Rightarrow> nat \<Rightarrow> nat \<Rightarrow> nat" where
  "made_count ins k index len = (if ins then len else min len (k - index))"


section \<open>Lemmas on the library functions\<close>

subsection \<open>Rounding to a multiple\<close>

lemma py_round_near: "\<bar>of_int (py_round x) - x\<bar> \<le> 1 / 2"
  unfolding py_round_def Let_def
  by (auto simp: abs_if) linarith+

lemma round_to_multiple_near:
  assumes "0 < m"
  shows "\<exists>v. round_to_multiple x m = Inr v \<and> v mod m = 0 \<and> \<bar>of_int v - x\<bar> \<le> of_int m / 2"
proof -
  let ?r = "py_round (x / of_int m)"
  have m0: "(0::rat) < of_int m" using assms by simp
  have "\<bar>of_int ?r - x / of_int m\<bar> \<le> 1 / 2" by (rule py_round_near)
  then have "\<bar>of_int ?r - x / of_int m\<bar> * of_int m \<le> (1 / 2) * of_int m"
    using m0 by (simp add: mult_right_mono)
  moreover have "\<bar>of_int ?r - x / of_int m\<bar> * of_int m = \<bar>of_int (m * ?r) - x\<bar>"
  proof -
    have "\<bar>of_int ?r - x / of_int m\<bar> * of_int m = \<bar>(of_int ?r - x / of_int m) * of_int m\<bar>"
      using m0 by (simp add: abs_mult)
    also have "(of_int ?r - x / of_int m) * of_int m = of_int (m * ?r) - x"
      using m0 by (simp add: field_simps)
    finally show ?thesis .
  qed
  ultimately have "\<bar>of_int (m * ?r) - x\<bar> \<le> of_int m / 2" by simp
  then show ?thesis using assms by (simp add: round_to_multiple_def)
qed

lemma round_to_multiple_8:
  "\<exists>v. round_to_multiple x 8 = Inr v \<and> v mod 8 = 0 \<and> \<bar>of_int v - x\<bar> \<le> 4"
  using round_to_multiple_near [of 8 x] by simp

lemma round_to_multiple_64:
  "\<exists>v. round_to_multiple x 64 = Inr v \<and> v mod 64 = 0 \<and> \<bar>of_int v - x\<bar> \<le> 32"
  using round_to_multiple_near [of 64 x] by simp

lemma request_entries_sizes:
  "request_entries w h i b s = Inr r \<Longrightarrow>
     round_to_multiple w 8 = Inr (req_width r) \<and> round_to_multiple h 8 = Inr (req_height r)"
  by (auto simp: request_entries_def split: sum.splits)

lemma resize_64:
  "\<exists>g'. LayerLocal_resize_to_multiple_of 64 ll g = Inr g'
     \<and> layer_width (objs g' (ll_layer ll)) mod 64 = 0
     \<and> \<bar>layer_width (objs g' (ll_layer ll)) - layer_width (objs g (ll_layer ll))\<bar> \<le> 32
     \<and> layer_height (objs g' (ll_layer ll)) mod 64 = 0
     \<and> \<bar>layer_height (objs g' (ll_layer ll)) - layer_height (objs g (ll_layer ll))\<bar> \<le> 32"
proof -
  let ?l = "objs g (ll_layer ll)"
  obtain w where w: "round_to_multiple (of_int (layer_width ?l)) 64 = Inr w" "w mod 64 = 0"
      "\<bar>rat_of_int w - of_int (layer_width ?l)\<bar> \<le> 32"
    using round_to_multiple_64 [of "of_int (layer_width ?l)"] by auto
  obtain h where h: "round_to_multiple (of_int (layer_height ?l)) 64 = Inr h" "h mod 64 = 0"
      "\<bar>rat_of_int h - of_int (layer_height ?l)\<bar> \<le> 32"
    using round_to_multiple_64 [of "of_int (layer_height ?l)"] by auto
  have "\<bar>w - layer_width ?l\<bar> \<le> 32" using w(3) by linarith
  moreover have "\<bar>h - layer_height ?l\<bar> \<le> 32" using h(3) by linarith
  ultimately show ?thesis
    using w(1,2) h(1,2) by (simp add: LayerLocal_resize_to_multiple_of_def Let_def)
qed

subsection \<open>Dictionaries\<close>

lemma map_of_dict_set: "map_of (dict_set d k v) = (map_of d)(k \<mapsto> v)"
  by (induction d) (auto simp: fun_eq_iff)

lemma dict_set_keys: "fst ` set (dict_set d k v) = insert k (fst ` set d)"
  by (induction d) (auto split: if_splits simp: rev_image_eqI)

lemma dict_set_entries: "set (dict_set d k v) \<subseteq> insert (k, v) (set d)"
  by (induction d) (auto split: if_splits)

lemma dict_set_distinct: "distinct (map fst d) \<Longrightarrow> distinct (map fst (dict_set d k v))"
proof (induction d)
  case Nil then show ?case by simp
next
  case (Cons p d)
  obtain k' v' where p: "p = (k', v')" by (cases p)
  from Cons show ?case using dict_set_keys [of d k v] by (auto simp: p)
qed

lemma dict_set_fresh: "k \<notin> fst ` set d \<Longrightarrow> dict_set d k v = d @ [(k, v)]"
  by (induction d) (auto split: if_splits)

lemma fold_entries: "set (foldl (\<lambda>d (k, v). dict_set d k v) d ps) \<subseteq> set d \<union> set ps"
proof (induction ps arbitrary: d)
  case Nil then show ?case by simp
next
  case (Cons p ps)
  obtain k v where p: "p = (k, v)" by (cases p)
  show ?case using Cons [of "dict_set d k v"] dict_set_entries [of d k v] by (auto simp: p)
qed

lemma fold_keys: "fst ` set (foldl (\<lambda>d (k, v). dict_set d k v) d ps) = fst ` set d \<union> fst ` set ps"
proof (induction ps arbitrary: d)
  case Nil then show ?case by simp
next
  case (Cons p ps)
  obtain k v where p: "p = (k, v)" by (cases p)
  show ?case using Cons [of "dict_set d k v"] dict_set_keys [of d k v] by (auto simp: p)
qed

lemma fold_distinct:
  "distinct (map fst d) \<Longrightarrow> distinct (map fst (foldl (\<lambda>d (k, v). dict_set d k v) d ps))"
proof (induction ps arbitrary: d)
  case Nil then show ?case by simp
next
  case (Cons p ps)
  obtain k v where p: "p = (k, v)" by (cases p)
  show ?case using Cons.IH [of "dict_set d k v"] dict_set_distinct [OF Cons.prems, of k v]
    by (simp add: p)
qed

lemma fold_fresh:
  "distinct (map fst (d @ ps)) \<Longrightarrow> foldl (\<lambda>d (k, v). dict_set d k v) d ps = d @ ps"
proof (induction ps arbitrary: d)
  case Nil then show ?case by simp
next
  case (Cons p ps)
  obtain k v where p: "p = (k, v)" by (cases p)
  from Cons.prems have fresh: "k \<notin> fst ` set d" by (auto simp: p)
  from Cons.prems have "distinct (map fst ((d @ [(k, v)]) @ ps))" by (simp add: p)
  from Cons.IH [OF this] show ?case by (simp add: p dict_set_fresh [OF fresh])
qed

lemma dict_of_pairs_entries: "set (dict_of_pairs ps) \<subseteq> set ps"
  using fold_entries [of "[]" ps] by (simp add: dict_of_pairs_def)

lemma dict_of_pairs_keys: "fst ` set (dict_of_pairs ps) = fst ` set ps"
  using fold_keys [of "[]" ps] by (simp add: dict_of_pairs_def)

lemma dict_of_pairs_distinct: "distinct (map fst (dict_of_pairs ps))"
  using fold_distinct [of "[]" ps] by (simp add: dict_of_pairs_def)

lemma dict_of_pairs_id: "distinct (map fst ps) \<Longrightarrow> dict_of_pairs ps = ps"
  using fold_fresh [of "[]" ps] by (simp add: dict_of_pairs_def)

lemma dict_of_pairs_idem: "dict_of_pairs (dict_of_pairs ps) = dict_of_pairs ps"
  by (rule dict_of_pairs_id) (rule dict_of_pairs_distinct)

lemma fold_map_of:
  "map_of (foldl (\<lambda>d (k, v). dict_set d k v) d ps) = map_of d ++ map_of (rev ps)"
proof (induction ps arbitrary: d)
  case Nil then show ?case by simp
next
  case (Cons p ps)
  obtain k v where p: "p = (k, v)" by (cases p)
  have "map_of (foldl (\<lambda>d (k, v). dict_set d k v) (dict_set d k v) ps)
          = (map_of d)(k \<mapsto> v) ++ map_of (rev ps)"
    by (simp only: Cons.IH [of "dict_set d k v"] map_of_dict_set)
  also have "\<dots> = map_of d ++ map_of (rev ps @ [(k, v)])"
    by (simp add: map_add_def fun_eq_iff split: option.splits)
  finally show ?case by (simp add: p)
qed

lemma dict_of_pairs_map_of: "map_of (dict_of_pairs ps) = map_of (rev ps)"
  using fold_map_of [of "[]" ps] by (simp add: dict_of_pairs_def)

subsection \<open>Lists and request entries\<close>

lemma py_index_mem: "x \<in> set xs \<Longrightarrow> \<exists>i. py_index xs x = Inr i \<and> i < length xs \<and> xs ! i = x"
  by (induction xs) auto

lemma py_getitem_nat: "i < length xs \<Longrightarrow> py_getitem xs (int i) = Inr (xs ! i)"
  by (simp add: py_getitem_def)

lemma request_entries_fields:
  "request_entries w h i b s = Inr r \<Longrightarrow>
     py_getitem SAMPLERS i = Inr (req_sampler_index r)
     \<and> req_batch_size r = batch_size_entry b \<and> req_seed r = seed_entry s"
  by (auto simp: request_entries_def split: sum.splits)

lemma request_entries_total:
  "py_getitem SAMPLERS i = Inr name \<Longrightarrow> \<exists>r. request_entries w h i b s = Inr r"
  using round_to_multiple_8 [of w] round_to_multiple_8 [of h]
  by (auto simp: request_entries_def)

subsection \<open>Stringified keys\<close>

lemma as_strings_deeply_idem: "as_strings_deeply (as_strings_deeply x) = as_strings_deeply x"
proof (induction x rule: as_strings_deeply.induct)
  case (2 kvs)
  let ?g = "\<lambda>kv. (KStr (str_of_key (fst kv)), as_strings_deeply (snd kv))"
  let ?d = "dict_of_pairs (map ?g kvs)"
  have "map ?g ?d = map (\<lambda>p. p) ?d"
  proof (rule map_cong [OF refl])
    fix p assume "p \<in> set ?d"
    then have "p \<in> set (map ?g kvs)" using dict_of_pairs_entries by blast
    then obtain kv where kv: "kv \<in> set kvs" and p: "p = ?g kv" by auto
    from "2.IH" [OF kv] show "?g p = p" by (simp add: p)
  qed
  then have "map ?g ?d = ?d" by simp
  then show ?case by (simp add: dict_of_pairs_idem)
qed simp_all

lemma as_strings_deeply_str_keyed: "str_keyed (as_strings_deeply x)"
proof (induction x rule: as_strings_deeply.induct)
  case (2 kvs)
  let ?g = "\<lambda>kv. (KStr (str_of_key (fst kv)), as_strings_deeply (snd kv))"
  have "\<forall>p \<in> set (dict_of_pairs (map ?g kvs)).
          (case fst p of KStr s \<Rightarrow> True | _ \<Rightarrow> False) \<and> str_keyed (snd p)"
  proof
    fix p assume "p \<in> set (dict_of_pairs (map ?g kvs))"
    then have "p \<in> set (map ?g kvs)" using dict_of_pairs_entries by blast
    then obtain kv where kv: "kv \<in> set kvs" and p: "p = ?g kv" by auto
    from "2.IH" [OF kv] show "(case fst p of KStr s \<Rightarrow> True | _ \<Rightarrow> False) \<and> str_keyed (snd p)"
      by (simp add: p)
  qed
  then show ?case by (simp add: list_all_iff)
qed simp_all

lemma as_strings_deeply_items:
  "\<exists>d. as_strings_deeply (PyDict kvs) = PyDict d
     \<and> distinct (map fst d)
     \<and> fst ` set d = (\<lambda>k. KStr (str_of_key k)) ` fst ` set kvs
     \<and> map_of d = map_of (rev (map (\<lambda>kv. (KStr (str_of_key (fst kv)), as_strings_deeply (snd kv))) kvs))
     \<and> (distinct (map (\<lambda>kv. str_of_key (fst kv)) kvs) \<longrightarrow>
          d = map (\<lambda>kv. (KStr (str_of_key (fst kv)), as_strings_deeply (snd kv))) kvs)"
proof -
  let ?g = "\<lambda>kv. (KStr (str_of_key (fst kv)), as_strings_deeply (snd kv))"
  let ?d = "dict_of_pairs (map ?g kvs)"
  have keys: "fst ` set ?d = (\<lambda>k. KStr (str_of_key k)) ` fst ` set kvs"
    using dict_of_pairs_keys [of "map ?g kvs"] by (simp add: image_image)
  have exact: "distinct (map (\<lambda>kv. str_of_key (fst kv)) kvs) \<longrightarrow> ?d = map ?g kvs"
  proof
    assume "distinct (map (\<lambda>kv. str_of_key (fst kv)) kvs)"
    then have "distinct (map KStr (map (\<lambda>kv. str_of_key (fst kv)) kvs))"
      by (simp add: distinct_map inj_on_def)
    then have "distinct (map fst (map ?g kvs))" by (simp add: comp_def)
    then show "?d = map ?g kvs" by (rule dict_of_pairs_id)
  qed
  show ?thesis
    using keys exact dict_of_pairs_distinct [of "map ?g kvs"] dict_of_pairs_map_of [of "map ?g kvs"]
    by simp
qed

lemma as_strings_deeply_other: "(\<forall>kvs. x \<noteq> PyDict kvs) \<Longrightarrow> as_strings_deeply x = x"
  by (cases x) simp_all

lemma request_example:
  "request_entries 500 300 7 50 (PyStr []) =
     Inr \<lparr>req_width = 496, req_height = 304, req_sampler_index = ''DPM++ 2M'',
          req_batch_size = 20, req_seed = PyInt (- 1)\<rparr>"
  by code_simp


section \<open>The request translator and the library functions\<close>

text \<open>
  C3. For every width and height, the size that the translator transmits is a multiple of 8
  at most 4 away from the input; the size to which a control-unit input image is resized is
  a multiple of 64 at most 32 away from the layer's size.
\<close>

theorem round_to_multiple_sizes:
  "(\<exists>v. round_to_multiple width 8 = Inr v \<and> v mod 8 = 0 \<and> \<bar>of_int v - width\<bar> \<le> 4)
   \<and> (\<exists>v. round_to_multiple height 8 = Inr v \<and> v mod 8 = 0 \<and> \<bar>of_int v - height\<bar> \<le> 4)
   \<and> (request_entries width height i b s = Inr r \<longrightarrow>
        round_to_multiple width 8 = Inr (req_width r)
        \<and> round_to_multiple height 8 = Inr (req_height r))
   \<and> (\<exists>g'. LayerLocal_resize_to_multiple_of 64 ll g = Inr g'
        \<and> layer_width (objs g' (ll_layer ll)) mod 64 = 0
        \<and> \<bar>layer_width (objs g' (ll_layer ll)) - layer_width (objs g (ll_layer ll))\<bar> \<le> 32
        \<and> layer_height (objs g' (ll_layer ll)) mod 64 = 0
        \<and> \<bar>layer_height (objs g' (ll_layer ll)) - layer_height (objs g (ll_layer ll))\<bar> \<le> 32)"
proof (intro conjI impI)
  show "\<exists>v. round_to_multiple width 8 = Inr v \<and> v mod 8 = 0 \<and> \<bar>of_int v - width\<bar> \<le> 4"
    by (rule round_to_multiple_8)
  show "\<exists>v. round_to_multiple height 8 = Inr v \<and> v mod 8 = 0 \<and> \<bar>of_int v - height\<bar> \<le> 4"
    by (rule round_to_multiple_8)
next
  assume "request_entries width height i b s = Inr r"
  then show "round_to_multiple width 8 = Inr (req_width r)"
    and "round_to_multiple height 8 = Inr (req_height r)"
    by (simp_all add: request_entries_sizes)
next
  show "\<exists>g'. LayerLocal_resize_to_multiple_of 64 ll g = Inr g'
        \<and> layer_width (objs g' (ll_layer ll)) mod 64 = 0
        \<and> \<bar>layer_width (objs g' (ll_layer ll)) - layer_width (objs g (ll_layer ll))\<bar> \<le> 32
        \<and> layer_height (objs g' (ll_layer ll)) mod 64 = 0
        \<and> \<bar>layer_height (objs g' (ll_layer ll)) - layer_height (objs g (ll_layer ll))\<bar> \<le> 32"
    by (rule resize_64)
qed

theorem round_to_multiple_sizes_witness:
  "request_entries 500 300 7 50 (PyStr []) =
     Inr \<lparr>req_width = 496, req_height = 304, req_sampler_index = ''DPM++ 2M'',
          req_batch_size = 20, req_seed = PyInt (- 1)\<rparr>
   \<and> round_to_multiple 500 8 = Inr 496 \<and> round_to_multiple 300 8 = Inr 304"
  using round_to_multiple_sizes [of 500 300 7 50 "PyStr []"
      "\<lparr>req_width = 496, req_height = 304, req_sampler_index = ''DPM++ 2M'',
        req_batch_size = 20, req_seed = PyInt (- 1)\<rparr>"] request_example
  by simp

text \<open>
  C7. For every integer batch size \<open>n\<close>, the request carries \<open>max(1, min(20, n))\<close>.
\<close>

theorem batch_size_clamped:
  "batch_size_entry n = max 1 (min 20 n)
   \<and> (request_entries w h i n s = Inr r \<longrightarrow> req_batch_size r = max 1 (min 20 n))"
  using request_entries_fields [of w h i n s r]
  by (auto simp: batch_size_entry_def MAX_BATCH_SIZE_def)

theorem batch_size_clamped_witness:
  "request_entries 500 300 7 50 (PyStr []) =
     Inr \<lparr>req_width = 496, req_height = 304, req_sampler_index = ''DPM++ 2M'',
          req_batch_size = 20, req_seed = PyInt (- 1)\<rparr>
   \<and> batch_size_entry 50 = 20 \<and> batch_size_entry (- 3) = 1 \<and> batch_size_entry 7 = 7"
  using batch_size_clamped [of 50 500 300 7 "PyStr []"
      "\<lparr>req_width = 496, req_height = 304, req_sampler_index = ''DPM++ 2M'',
        req_batch_size = 20, req_seed = PyInt (- 1)\<rparr>"]
    batch_size_clamped [of "- 3"] batch_size_clamped [of 7] request_example
  by simp

text \<open>
  C8. A seed that is 0, \<open>None\<close> or the empty string is sent as -1; any other integer seed is
  sent as it is.
\<close>

theorem seed_mapping:
  "seed_entry (PyInt 0) = PyInt (- 1)
   \<and> seed_entry PyNone = PyInt (- 1)
   \<and> seed_entry (PyStr []) = PyInt (- 1)
   \<and> (n \<noteq> 0 \<longrightarrow> seed_entry (PyInt n) = PyInt n)
   \<and> (request_entries w h i b s = Inr r \<longrightarrow> req_seed r = seed_entry s)"
  using request_entries_fields [of w h i b s r]
  by (simp add: seed_entry_def py_or_def)

theorem seed_mapping_witness:
  "(1234 :: int) \<noteq> 0 \<and> seed_entry (PyInt 1234) = PyInt 1234
   \<and> request_entries 500 300 7 50 (PyStr []) =
     Inr \<lparr>req_width = 496, req_height = 304, req_sampler_index = ''DPM++ 2M'',
          req_batch_size = 20, req_seed = PyInt (- 1)\<rparr>
   \<and> seed_entry (PyStr []) = PyInt (- 1)"
  using seed_mapping [of 1234 500 300 7 50 "PyStr []"
      "\<lparr>req_width = 496, req_height = 304, req_sampler_index = ''DPM++ 2M'',
        req_batch_size = 20, req_seed = PyInt (- 1)\<rparr>"] request_example
  by (simp add: seed_entry_def py_or_def)

text \<open>
  C9. Every name of the sampler list is found again at its own index, and the request
  carries the list element at the index selected in the dialog.
\<close>

theorem sampler_index_round_trip:
  "(\<forall>name \<in> set SAMPLERS.
      \<exists>i. py_index SAMPLERS name = Inr i \<and> py_getitem SAMPLERS (int i) = Inr name)
   \<and> (request_entries w h i b s = Inr r \<longrightarrow> py_getitem SAMPLERS i = Inr (req_sampler_index r))
   \<and> (0 \<le> i \<and> i < int (length SAMPLERS) \<longrightarrow>
        (\<exists>r. request_entries w h i b s = Inr r \<and> req_sampler_index r = SAMPLERS ! nat i))"
proof (intro conjI ballI impI)
  fix name assume "name \<in> set SAMPLERS"
  then obtain i where "py_index SAMPLERS name = Inr i" "i < length SAMPLERS" "SAMPLERS ! i = name"
    using py_index_mem by fastforce
  then show "\<exists>i. py_index SAMPLERS name = Inr i \<and> py_getitem SAMPLERS (int i) = Inr name"
    using py_getitem_nat [of i SAMPLERS] by auto
next
  assume "request_entries w h i b s = Inr r"
  then show "py_getitem SAMPLERS i = Inr (req_sampler_index r)"
    by (simp add: request_entries_fields)
next
  assume range: "0 \<le> i \<and> i < int (length SAMPLERS)"
  then have get: "py_getitem SAMPLERS i = Inr (SAMPLERS ! nat i)"
    by (simp add: py_getitem_def)
  then obtain r where r: "request_entries w h i b s = Inr r"
    using request_entries_total by blast
  with get have "req_sampler_index r = SAMPLERS ! nat i"
    using request_entries_fields [of w h i b s r] by simp
  with r show "\<exists>r. request_entries w h i b s = Inr r \<and> req_sampler_index r = SAMPLERS ! nat i"
    by blast
qed

theorem sampler_index_round_trip_witness:
  "''DPM++ 2M'' \<in> set SAMPLERS
   \<and> (\<exists>i. py_index SAMPLERS ''DPM++ 2M'' = Inr i \<and> py_getitem SAMPLERS (int i) = Inr ''DPM++ 2M'')
   \<and> (0::int) \<le> 7 \<and> 7 < int (length SAMPLERS)
   \<and> request_entries 500 300 7 50 (PyStr []) =
       Inr \<lparr>req_width = 496, req_height = 304, req_sampler_index = ''DPM++ 2M'',
            req_batch_size = 20, req_seed = PyInt (- 1)\<rparr>
   \<and> py_getitem SAMPLERS 7 = Inr ''DPM++ 2M''"
proof -
  have mem: "''DPM++ 2M'' \<in> set SAMPLERS" by (simp add: SAMPLERS_def)
  have len: "(0::int) \<le> 7 \<and> 7 < int (length SAMPLERS)" by (simp add: SAMPLERS_def)
  show ?thesis
    using mem len request_example
      sampler_index_round_trip [of 500 300 7 50 "PyStr []"
        "\<lparr>req_width = 496, req_height = 304, req_sampler_index = ''DPM++ 2M'',
          req_batch_size = 20, req_seed = PyInt (- 1)\<rparr>"]
    by auto
qed

text \<open>
  C10. \<open>as_strings_deeply\<close> is idempotent. A value that is not a dictionary, a list and its
  contents included, is returned as it is. Of a dictionary it returns a dictionary whose keys
  are the \<open>str\<close> of the argument's keys, each once, and whose value under a key is
  \<open>as_strings_deeply\<close> of the argument's last value under a key with that \<open>str\<close>; when no
  two keys have the same \<open>str\<close>, the result has the argument's items in their order, each
  with its key as a string and its value converted in the same way. So every key of the
  result, and of every dictionary nested in its dictionaries, is a string.
\<close>

theorem as_strings_deeply_idempotent:
  "as_strings_deeply (as_strings_deeply x) = as_strings_deeply x
   \<and> str_keyed (as_strings_deeply x)
   \<and> (\<forall>kvs. x = PyDict kvs \<longrightarrow>
        (\<exists>d. as_strings_deeply x = PyDict d
           \<and> distinct (map fst d)
           \<and> fst ` set d = (\<lambda>k. KStr (str_of_key k)) ` fst ` set kvs
           \<and> map_of d =
               map_of (rev (map (\<lambda>kv. (KStr (str_of_key (fst kv)), as_strings_deeply (snd kv))) kvs))
           \<and> (distinct (map (\<lambda>kv. str_of_key (fst kv)) kvs) \<longrightarrow>
                d = map (\<lambda>kv. (KStr (str_of_key (fst kv)), as_strings_deeply (snd kv))) kvs)))
   \<and> ((\<forall>kvs. x \<noteq> PyDict kvs) \<longrightarrow> as_strings_deeply x = x)"
proof (intro conjI allI impI)
  show "as_strings_deeply (as_strings_deeply x) = as_strings_deeply x"
    by (rule as_strings_deeply_idem)
  show "str_keyed (as_strings_deeply x)" by (rule as_strings_deeply_str_keyed)
next
  fix kvs assume "x = PyDict kvs"
  then show "\<exists>d. as_strings_deeply x = PyDict d
           \<and> distinct (map fst d)
           \<and> fst ` set d = (\<lambda>k. KStr (str_of_key k)) ` fst ` set kvs
           \<and> map_of d =
               map_of (rev (map (\<lambda>kv. (KStr (str_of_key (fst kv)), as_strings_deeply (snd kv))) kvs))
           \<and> (distinct (map (\<lambda>kv. str_of_key (fst kv)) kvs) \<longrightarrow>
                d = map (\<lambda>kv. (KStr (str_of_key (fst kv)), as_strings_deeply (snd kv))) kvs)"
    using as_strings_deeply_items [of kvs] by simp
next
  assume "\<forall>kvs. x \<noteq> PyDict kvs"
  then show "as_strings_deeply x = x" by (rule as_strings_deeply_other)
qed

theorem as_strings_deeply_idempotent_witness:
  "as_strings_deeply
     (PyDict [(KInt 1, PyInt 2),
              (KStr ''1'', PyDict [(KNone, PyList [PyDict [(KInt 3, PyNone)]])])]) =
     PyDict [(KStr ''1'', PyDict [(KStr ''None'', PyList [PyDict [(KInt 3, PyNone)]])])]
   \<and> as_strings_deeply
       (as_strings_deeply
         (PyDict [(KInt 1, PyInt 2),
                  (KStr ''1'', PyDict [(KNone, PyList [PyDict [(KInt 3, PyNone)]])])])) =
     PyDict [(KStr ''1'', PyDict [(KStr ''None'', PyList [PyDict [(KInt 3, PyNone)]])])]
   \<and> distinct (map (\<lambda>kv. str_of_key (fst kv))
         [(KInt 7, PyInt 3), (KBool True, PyStr ''b''), (KStr ''c'', PyDict [(KInt 2, PyFloat (1 / 2))])])
   \<and> as_strings_deeply
       (PyDict [(KInt 7, PyInt 3), (KBool True, PyStr ''b''),
                (KStr ''c'', PyDict [(KInt 2, PyFloat (1 / 2))])]) =
     PyDict [(KStr ''7'', PyInt 3), (KStr ''True'', PyStr ''b''),
             (KStr ''c'', PyDict [(KStr ''2'', PyFloat (1 / 2))])]
   \<and> as_strings_deeply (PyList [PyDict [(KInt 3, PyNone)]]) = PyList [PyDict [(KInt 3, PyNone)]]"
proof -
  let ?a = "PyDict [(KInt 1, PyInt 2),
              (KStr ''1'', PyDict [(KNone, PyList [PyDict [(KInt 3, PyNone)]])])]"
  let ?kvs = "[(KInt 7, PyInt 3), (KBool True, PyStr ''b''),
               (KStr ''c'', PyDict [(KInt 2, PyFloat (1 / 2))])]"
  have ev: "as_strings_deeply ?a =
     PyDict [(KStr ''1'', PyDict [(KStr ''None'', PyList [PyDict [(KInt 3, PyNone)]])])]"
    by (simp add: dict_of_pairs_def str_of_int_def digits_of_nat.simps)
  have idem: "as_strings_deeply (as_strings_deeply ?a) = as_strings_deeply ?a"
    using as_strings_deeply_idempotent [of ?a] by blast
  have dist: "distinct (map (\<lambda>kv. str_of_key (fst kv)) ?kvs)"
    by (simp add: str_of_int_def digits_of_nat.simps)
  have inner: "as_strings_deeply (PyDict [(KInt 2, PyFloat (1 / 2))])
                 = PyDict [(KStr ''2'', PyFloat (1 / 2))]"
    by (simp add: dict_of_pairs_def str_of_int_def digits_of_nat.simps)
  have "\<exists>d. as_strings_deeply (PyDict ?kvs) = PyDict d
          \<and> d = map (\<lambda>kv. (KStr (str_of_key (fst kv)), as_strings_deeply (snd kv))) ?kvs"
    using as_strings_deeply_idempotent [of "PyDict ?kvs"] dist by blast
  then have exact: "as_strings_deeply (PyDict ?kvs) =
     PyDict [(KStr ''7'', PyInt 3), (KStr ''True'', PyStr ''b''),
             (KStr ''c'', PyDict [(KStr ''2'', PyFloat (1 / 2))])]"
    using inner by (simp add: str_of_int_def digits_of_nat.simps)
  have lst: "as_strings_deeply (PyList [PyDict [(KInt 3, PyNone)]]) = PyList [PyDict [(KInt 3, PyNone)]]"
    using as_strings_deeply_idempotent [of "PyList [PyDict [(KInt 3, PyNone)]]"] by blast
  show ?thesis
    using ev idem dist exact lst by simp
qed


section \<open>The server probe and the API client\<close>

lemma strip_blank: "strip s = [] \<longleftrightarrow> (\<forall>c \<in> set s. py_isspace c)"
proof
  assume "strip s = []"
  then have "dropWhile py_isspace (rev (dropWhile py_isspace s)) = []"
    by (simp add: strip_def)
  then have "\<forall>c \<in> set (rev (dropWhile py_isspace s)). py_isspace c"
    by (simp only: dropWhile_eq_Nil_conv)
  then have all: "\<forall>c \<in> set (dropWhile py_isspace s). py_isspace c" by simp
  have "dropWhile py_isspace s = []"
  proof (rule ccontr)
    assume ne: "dropWhile py_isspace s \<noteq> []"
    then have "\<not> py_isspace (hd (dropWhile py_isspace s))" by (rule hd_dropWhile)
    moreover have "hd (dropWhile py_isspace s) \<in> set (dropWhile py_isspace s)"
      using ne by (rule hd_in_set)
    ultimately show False using all by blast
  qed
  then show "\<forall>c \<in> set s. py_isspace c"
    by (simp only: dropWhile_eq_Nil_conv)
next
  assume "\<forall>c \<in> set s. py_isspace c"
  then have d: "dropWhile py_isspace s = []" by (simp only: dropWhile_eq_Nil_conv)
  show "strip s = []" by (simp only: strip_def d rev.simps dropWhile.simps)
qed

lemma startswith_iff: "startswith s p \<longleftrightarrow> (\<exists>rest. s = p @ rest)"
proof
  assume "startswith s p"
  then have "s = p @ drop (length p) s"
    unfolding startswith_def by (metis append_take_drop_id)
  then show "\<exists>rest. s = p @ rest" ..
next
  assume "\<exists>rest. s = p @ rest"
  then show "startswith s p" by (auto simp: startswith_def)
qed

lemma MyShelf_get_dict:
  "shelf_data s = PyDict kvs \<Longrightarrow>
     MyShelf_get s name dflt = Inr (case map_of kvs (KStr name) of Some v \<Rightarrow> v | None \<Rightarrow> dflt)"
  by (simp add: MyShelf_get_def shelf_data_def split: option.splits)

lemma poll_server_missing:
  "shelf_data (settings p) = PyDict kvs \<Longrightarrow>
   map_of kvs (KStr ''api_base'') = None \<or> map_of kvs (KStr ''api_base'') = Some PyNone \<Longrightarrow>
     poll_server urlopen p = (Inl (ValueError ''api_base setting is missing.''), p)"
  by (auto simp: poll_server_def MyShelf_get_dict)

lemma poll_server_blank:
  "shelf_data (settings p) = PyDict kvs \<Longrightarrow>
   map_of kvs (KStr ''api_base'') = Some (PyStr url) \<Longrightarrow> \<forall>c \<in> set url. py_isspace c \<Longrightarrow>
     poll_server urlopen p = (Inl (ValueError ''api_base setting is blank.''), p)"
  using strip_blank [of url] by (simp add: poll_server_def MyShelf_get_dict)

lemma poll_server_malformed:
  "shelf_data (settings p) = PyDict kvs \<Longrightarrow>
   map_of kvs (KStr ''api_base'') = Some (PyStr url) \<Longrightarrow>
   \<not> (\<exists>rest. lower url = ''http://'' @ rest) \<Longrightarrow>
     \<exists>msg. poll_server urlopen p = (Inl (ValueError msg), p)"
  using startswith_iff [of "lower url" "''http://''"]
  by (simp add: poll_server_def MyShelf_get_dict)

lemma poll_server_not_string:
  "shelf_data (settings p) = PyDict kvs \<Longrightarrow>
   map_of kvs (KStr ''api_base'') = Some v \<Longrightarrow> v \<noteq> PyNone \<Longrightarrow> \<forall>u. v \<noteq> PyStr u \<Longrightarrow>
     poll_server urlopen p = (Inl AttributeError, p)"
  by (cases v) (simp_all add: poll_server_def MyShelf_get_dict)

lemma poll_server_probes:
  assumes "shelf_data (settings p) = PyDict kvs"
    and "map_of kvs (KStr ''api_base'') = Some (PyStr url)"
    and "\<exists>c \<in> set url. \<not> py_isspace c"
    and "\<exists>rest. lower url = ''http://'' @ rest"
  shows "probes (snd (poll_server urlopen p)) = probes p @ [url]
     \<and> fst (poll_server urlopen p) =
         (case urlopen url of Opened \<Rightarrow> Inr True | RaisedURLError \<Rightarrow> Inr False | Raised e \<Rightarrow> Inl e)
     \<and> (\<forall>b. fst (poll_server urlopen p) = Inr b \<longrightarrow> is_server_running (snd (poll_server urlopen p)) = b)"
proof -
  have s: "strip url \<noteq> []" using assms(3) strip_blank [of url] by blast
  have h: "startswith (lower url) ''http://''"
    using assms(4) startswith_iff [of "lower url" "''http://''"] by blast
  show ?thesis
    using assms(1,2) s h
    by (cases "urlopen url") (simp_all add: poll_server_def MyShelf_get_dict server_online_def)
qed

lemma poll_server_not_dict:
  "\<forall>kvs. shelf_data (settings p) \<noteq> PyDict kvs \<Longrightarrow> \<exists>e. poll_server urlopen p = (Inl e, p)"
  by (cases "shelf_data (settings p)")
    (simp_all add: poll_server_def MyShelf_get_def shelf_data_def)

text \<open>
  C4. When the answer to a POST has a status outside 200 to 299, \<open>post\<close> has sent exactly
  one request, has logged the status code, the reason and the headers of the answer, and
  returns \<open>None\<close> to its caller instead of raising.
\<close>

theorem post_non_2xx:
  "\<exists>req. sent (snd (ApiClient_post urlopen endpoint dict_in query headers c)) = sent c @ [req]
     \<and> rq_url req = base_url c @ endpoint @ ''?'' @ query
     \<and> rq_data req = dict_in
     \<and> (\<forall>r. urlopen req = Answered r \<and> \<not> (200 \<le> rs_code r \<and> rs_code r < 300) \<longrightarrow>
          fst (ApiClient_post urlopen endpoint dict_in query headers c) = Inr PyNone
          \<and> api_log (snd (ApiClient_post urlopen endpoint dict_in query headers c)) =
              api_log c @
                [Warning (''POST '' @ rq_url req),
                 Exception ''ERROR: ApiClient.post()'',
                 Error (''url='' @ rs_url r @ '', code='' @ str_of_int (rs_code r)
                        @ '', reason='' @ rs_reason r),
                 Error (rs_headers r)])"
proof -
  define req where "req =
    \<lparr>rq_url = base_url c @ endpoint @ ''?'' @ query, rq_data = dict_in,
      rq_headers = (if headers \<noteq> [] then headers
                    else [(''Content-Type'', ''application/json''),
                          (''Accept'', ''application/json'')])\<rparr>"
  have one: "sent (snd (ApiClient_post urlopen endpoint dict_in query headers c)) = sent c @ [req]"
    unfolding req_def
    by (simp add: ApiClient_post_def Let_def split: net_outcome.splits option.splits)
  have url: "rq_url req = base_url c @ endpoint @ ''?'' @ query" and dat: "rq_data req = dict_in"
    by (simp_all add: req_def)
  have err: "\<forall>r. urlopen req = Answered r \<and> \<not> (200 \<le> rs_code r \<and> rs_code r < 300) \<longrightarrow>
          fst (ApiClient_post urlopen endpoint dict_in query headers c) = Inr PyNone
          \<and> api_log (snd (ApiClient_post urlopen endpoint dict_in query headers c)) =
              api_log c @
                [Warning (''POST '' @ rq_url req),
                 Exception ''ERROR: ApiClient.post()'',
                 Error (''url='' @ rs_url r @ '', code='' @ str_of_int (rs_code r)
                        @ '', reason='' @ rs_reason r),
                 Error (rs_headers r)]"
    unfolding req_def by (auto simp: ApiClient_post_def Let_def)
  from one url dat err show ?thesis by blast
qed

theorem post_non_2xx_witness:
  "ApiClient_post
     (\<lambda>req. Answered \<lparr>rs_url = rq_url req, rs_code = 404, rs_reason = ''Not Found'',
                       rs_headers = ''server: uvicorn'', rs_json = None\<rparr>)
     ''/sdapi/v1/txt2img'' (PyDict []) [] []
     \<lparr>base_url = ''http://127.0.0.1:7860'', sent = [], api_log = []\<rparr> =
   (Inr PyNone,
    \<lparr>base_url = ''http://127.0.0.1:7860'',
      sent = [\<lparr>rq_url = ''http://127.0.0.1:7860/sdapi/v1/txt2img?'', rq_data = PyDict [],
               rq_headers = [(''Content-Type'', ''application/json''),
                             (''Accept'', ''application/json'')]\<rparr>],
      api_log = [Warning ''POST http://127.0.0.1:7860/sdapi/v1/txt2img?'',
                 Exception ''ERROR: ApiClient.post()'',
                 Error ''url=http://127.0.0.1:7860/sdapi/v1/txt2img?, code=404, reason=Not Found'',
                 Error ''server: uvicorn'']\<rparr>)"
  using post_non_2xx
    [of "\<lambda>req. Answered \<lparr>rs_url = rq_url req, rs_code = 404, rs_reason = ''Not Found'',
                       rs_headers = ''server: uvicorn'', rs_json = None\<rparr>"
        "''/sdapi/v1/txt2img''" "PyDict []" "[]" "[]"
        "\<lparr>base_url = ''http://127.0.0.1:7860'', sent = [], api_log = []\<rparr>"]
  by (simp add: ApiClient_post_def Let_def str_of_int_def digits_of_nat.simps)

text \<open>
  C5. When the stored \<open>api_base\<close> is missing, blank, or does not begin with \<open>http://\<close> (in
  any letter case), \<open>poll_server\<close> raises \<open>ValueError\<close> and no URL has been opened; for every
  other URL it opens that URL once and returns what \<open>server_online\<close> returns. A stored
  value that is not a string raises \<open>AttributeError\<close>, again with no URL opened. When the
  settings object is not a dictionary, \<open>poll_server\<close> raises and no URL has been opened.
\<close>

theorem poll_server_guards:
  "(shelf_data (settings p) = PyDict kvs \<longrightarrow>
      (map_of kvs (KStr ''api_base'') = None \<or> map_of kvs (KStr ''api_base'') = Some PyNone \<longrightarrow>
         poll_server urlopen p = (Inl (ValueError ''api_base setting is missing.''), p))
      \<and> (map_of kvs (KStr ''api_base'') = Some (PyStr url) \<longrightarrow>
           ((\<forall>c \<in> set url. py_isspace c) \<longrightarrow>
              poll_server urlopen p = (Inl (ValueError ''api_base setting is blank.''), p))
           \<and> (\<not> (\<exists>rest. lower url = ''http://'' @ rest) \<longrightarrow>
              (\<exists>msg. poll_server urlopen p = (Inl (ValueError msg), p)))
           \<and> ((\<exists>c \<in> set url. \<not> py_isspace c) \<and> (\<exists>rest. lower url = ''http://'' @ rest) \<longrightarrow>
                probes (snd (poll_server urlopen p)) = probes p @ [url]
                \<and> fst (poll_server urlopen p) =
                    (case urlopen url of
                       Opened \<Rightarrow> Inr True | RaisedURLError \<Rightarrow> Inr False | Raised e \<Rightarrow> Inl e)))
      \<and> (map_of kvs (KStr ''api_base'') = Some v \<and> v \<noteq> PyNone \<and> (\<forall>u. v \<noteq> PyStr u) \<longrightarrow>
           poll_server urlopen p = (Inl AttributeError, p)))
   \<and> ((\<forall>kvs. shelf_data (settings p) \<noteq> PyDict kvs) \<longrightarrow>
        (\<exists>e. poll_server urlopen p = (Inl e, p)))"
  using poll_server_missing [of p kvs urlopen] poll_server_blank [of p kvs url urlopen]
    poll_server_malformed [of p kvs url urlopen] poll_server_probes [of p kvs url urlopen]
    poll_server_not_string [of p kvs v urlopen] poll_server_not_dict [of p urlopen]
  by blast

theorem poll_server_guards_witness:
  "(let P = (\<lambda>d. \<lparr>settings = \<lparr>heap = (\<lambda>a. d), next_addr = 1, data = 0,
                                   file_path = ''stable_diffusion_auto1111.json'',
                                   disk = Missing, writable = True, shelf_log = []\<rparr>,
                      is_server_running = False, probes = [], plugin_log = []\<rparr>);
        D = (\<lambda>v. PyDict [(KStr ''api_base'', v)]);
        net = (\<lambda>u. if u = ''HTTP://127.0.0.1:7860'' then Opened else RaisedURLError)
    in poll_server net (P (PyDict [])) =
         (Inl (ValueError ''api_base setting is missing.''), P (PyDict []))
       \<and> poll_server net (P (D PyNone)) =
           (Inl (ValueError ''api_base setting is missing.''), P (D PyNone))
       \<and> (\<forall>c \<in> set ''  ''. py_isspace c)
       \<and> poll_server net (P (D (PyStr ''  ''))) =
           (Inl (ValueError ''api_base setting is blank.''), P (D (PyStr ''  '')))
       \<and> \<not> (\<exists>rest. lower ''https://127.0.0.1:7860'' = ''http://'' @ rest)
       \<and> (\<exists>msg. poll_server net (P (D (PyStr ''https://127.0.0.1:7860''))) =
                  (Inl (ValueError msg), P (D (PyStr ''https://127.0.0.1:7860''))))
       \<and> (\<exists>c \<in> set ''HTTP://127.0.0.1:7860''. \<not> py_isspace c)
       \<and> (\<exists>rest. lower ''HTTP://127.0.0.1:7860'' = ''http://'' @ rest)
       \<and> probes (snd (poll_server net (P (D (PyStr ''HTTP://127.0.0.1:7860''))))) =
           [''HTTP://127.0.0.1:7860'']
       \<and> fst (poll_server net (P (D (PyStr ''HTTP://127.0.0.1:7860'')))) = Inr True
       \<and> poll_server net (P (D (PyInt 7860))) = (Inl AttributeError, P (D (PyInt 7860)))
       \<and> (\<exists>e. poll_server net (P (PyList [])) = (Inl e, P (PyList []))))"
proof -
  let ?P = "\<lambda>d. \<lparr>settings = \<lparr>heap = (\<lambda>a. d), next_addr = 1, data = 0,
                                 file_path = ''stable_diffusion_auto1111.json'',
                                 disk = Missing, writable = True, shelf_log = []\<rparr>,
                    is_server_running = False, probes = [], plugin_log = []\<rparr>"
  let ?D = "\<lambda>v. PyDict [(KStr ''api_base'', v)]"
  let ?net = "\<lambda>u. if u = ''HTTP://127.0.0.1:7860'' then Opened else RaisedURLError"
  have blank: "\<forall>c \<in> set ''  ''. py_isspace c" by (simp add: py_isspace_def)
  have bad: "\<not> (\<exists>rest. lower ''https://127.0.0.1:7860'' = ''http://'' @ rest)"
    by (simp add: lower_def char_lower_def)
  have nonblank: "\<exists>c \<in> set ''HTTP://127.0.0.1:7860''. \<not> py_isspace c"
    by (simp add: py_isspace_def)
  have good: "\<exists>rest. lower ''HTTP://127.0.0.1:7860'' = ''http://'' @ rest"
    by (simp add: lower_def char_lower_def)
  have sd: "\<And>d. shelf_data (settings (?P d)) = d" by (simp add: shelf_data_def)
  have m0: "map_of ([] :: (pykey \<times> pyval) list) (KStr ''api_base'') = None" by simp
  have m1: "\<And>v. map_of [(KStr ''api_base'', v)] (KStr ''api_base'') = Some v" by simp
  have nd: "\<forall>kvs. shelf_data (settings (?P (PyList []))) \<noteq> PyDict kvs" by (simp add: shelf_data_def)
  have ni: "PyInt 7860 \<noteq> PyNone \<and> (\<forall>u. PyInt 7860 \<noteq> PyStr u)" by simp
  have c0: "poll_server ?net (?P (PyDict []))
              = (Inl (ValueError ''api_base setting is missing.''), ?P (PyDict []))"
    using poll_server_guards [where p = "?P (PyDict [])" and kvs = "[]" and urlopen = ?net]
      sd [of "PyDict []"] m0 by blast
  have c0': "poll_server ?net (?P (?D PyNone))
              = (Inl (ValueError ''api_base setting is missing.''), ?P (?D PyNone))"
    using poll_server_guards [where p = "?P (?D PyNone)" and kvs = "[(KStr ''api_base'', PyNone)]"
        and urlopen = ?net]
      sd [of "?D PyNone"] m1 [of PyNone] by blast
  have c1: "poll_server ?net (?P (?D (PyStr ''  '')))
              = (Inl (ValueError ''api_base setting is blank.''), ?P (?D (PyStr ''  '')))"
    using poll_server_guards [where p = "?P (?D (PyStr ''  ''))"
        and kvs = "[(KStr ''api_base'', PyStr ''  '')]" and url = "''  ''" and urlopen = ?net]
      sd [of "?D (PyStr ''  '')"] m1 [of "PyStr ''  ''"] blank by blast
  have c2: "\<exists>msg. poll_server ?net (?P (?D (PyStr ''https://127.0.0.1:7860'')))
              = (Inl (ValueError msg), ?P (?D (PyStr ''https://127.0.0.1:7860'')))"
    using poll_server_guards [where p = "?P (?D (PyStr ''https://127.0.0.1:7860''))"
        and kvs = "[(KStr ''api_base'', PyStr ''https://127.0.0.1:7860'')]"
        and url = "''https://127.0.0.1:7860''" and urlopen = ?net]
      sd [of "?D (PyStr ''https://127.0.0.1:7860'')"] m1 [of "PyStr ''https://127.0.0.1:7860''"] bad
    by blast
  have c3: "probes (snd (poll_server ?net (?P (?D (PyStr ''HTTP://127.0.0.1:7860'')))))
              = probes (?P (?D (PyStr ''HTTP://127.0.0.1:7860''))) @ [''HTTP://127.0.0.1:7860'']
            \<and> fst (poll_server ?net (?P (?D (PyStr ''HTTP://127.0.0.1:7860''))))
              = (case ?net ''HTTP://127.0.0.1:7860'' of
                   Opened \<Rightarrow> Inr True | RaisedURLError \<Rightarrow> Inr False | Raised e \<Rightarrow> Inl e)"
    using poll_server_guards [where p = "?P (?D (PyStr ''HTTP://127.0.0.1:7860''))"
        and kvs = "[(KStr ''api_base'', PyStr ''HTTP://127.0.0.1:7860'')]"
        and url = "''HTTP://127.0.0.1:7860''" and urlopen = ?net]
      sd [of "?D (PyStr ''HTTP://127.0.0.1:7860'')"] m1 [of "PyStr ''HTTP://127.0.0.1:7860''"]
      nonblank good
    by blast
  have c3': "probes (snd (poll_server ?net (?P (?D (PyStr ''HTTP://127.0.0.1:7860'')))))
              = [''HTTP://127.0.0.1:7860'']
            \<and> fst (poll_server ?net (?P (?D (PyStr ''HTTP://127.0.0.1:7860''))))
              = Inr True"
    using c3 by simp
  have c4: "poll_server ?net (?P (?D (PyInt 7860))) = (Inl AttributeError, ?P (?D (PyInt 7860)))"
    using poll_server_guards [where p = "?P (?D (PyInt 7860))"
        and kvs = "[(KStr ''api_base'', PyInt 7860)]" and v = "PyInt 7860" and urlopen = ?net]
      sd [of "?D (PyInt 7860)"] m1 [of "PyInt 7860"] ni by blast
  have c5: "\<exists>e. poll_server ?net (?P (PyList [])) = (Inl e, ?P (PyList []))"
    using poll_server_guards [where p = "?P (PyList [])" and urlopen = ?net] nd by blast
  show ?thesis
    unfolding Let_def
    using c0 c0' blank c1 bad c2 nonblank good c3' c4 c5 by blast
qed


section \<open>Persistence of the settings\<close>

lemma key_eq_str: "key_eq k (KStr n) \<longleftrightarrow> k = KStr n"
  by (cases k) auto

lemma py_setitem_str: "map_of (py_setitem d (KStr n) v) = (map_of d)(KStr n \<mapsto> v)"
  by (induction d) (auto simp: key_eq_str)

lemma py_update_fold:
  "str_keys x \<Longrightarrow>
     map_of (foldl (\<lambda>d (k, v). py_setitem d k v) d x) = map_of d ++ map_of (rev x)"
proof (induction x arbitrary: d)
  case Nil
  then show ?case by simp
next
  case (Cons kv x)
  obtain k v where kv: "kv = (k, v)" by (cases kv)
  from Cons.prems kv obtain n where k: "k = KStr n" and x: "str_keys x"
    by (cases k) (auto simp: str_keys_def)
  have "map_of (foldl (\<lambda>d (k, v). py_setitem d k v) (py_setitem d k v) x)
          = map_of (py_setitem d k v) ++ map_of (rev x)"
    using Cons.IH [OF x, of "py_setitem d k v"] .
  then show ?case
    by (simp add: kv k py_setitem_str)
qed

lemma py_update_map_of:
  "str_keys x \<Longrightarrow> map_of (py_update d x) = map_of d ++ map_of (rev x)"
  unfolding py_update_def by (rule py_update_fold)

text \<open>
  \<open>save\<close> updates in place the dictionary that \<open>self.data\<close> refers to. After a \<open>load\<close> that
  found no readable file this is the caller's default dictionary, which \<open>save\<close> so changes.
\<close>

lemma MyShelf_save_in_place:
  "shelf_data s = PyDict kvs \<Longrightarrow>
     data (MyShelf_save json_dump x s) = data s
     \<and> shelf_data (MyShelf_save json_dump x s) = PyDict (py_update kvs x)"
  by (simp add: MyShelf_save_def shelf_data_def Let_def split: option.splits)

lemma MyShelf_save_default_changed:
  "disk s = Missing \<or> disk s = Unreadable \<Longrightarrow> heap s d = PyDict D \<Longrightarrow>
     heap (MyShelf_save json_dump x (MyShelf_load d s)) d = PyDict (py_update D x)"
  by (auto simp: MyShelf_save_def MyShelf_load_def Let_def split: option.splits)

text \<open>
  When \<open>json.dump\<close> raises, the settings file is left unreadable, and the next \<open>load\<close> refers
  to its default dictionary. When the file cannot be opened for writing it stays as it was.
  When \<open>self.data\<close> is not a dictionary, \<open>save\<close> changes nothing but the log.
\<close>

lemma MyShelf_save_dump_raises:
  "shelf_data s = PyDict kvs \<Longrightarrow> writable s \<Longrightarrow> json_dump (PyDict (py_update kvs x)) = None \<Longrightarrow>
     disk (MyShelf_save json_dump x s) = Unreadable
     \<and> data (MyShelf_load d (MyShelf_save json_dump x s)) = d"
  by (simp add: MyShelf_save_def MyShelf_load_def shelf_data_def Let_def)

lemma MyShelf_save_not_writable:
  "\<not> writable s \<Longrightarrow> disk (MyShelf_save json_dump x s) = disk s"
  by (simp add: MyShelf_save_def Let_def split: pyval.splits)

lemma MyShelf_save_not_dict:
  "\<forall>kvs. shelf_data s \<noteq> PyDict kvs \<Longrightarrow>
     MyShelf_save json_dump x s = s\<lparr>shelf_log := shelf_log s @ [Exception ''AttributeError'']\<rparr>"
  by (cases "heap s (data s)") (simp_all add: MyShelf_save_def shelf_data_def)

lemma MyShelf_save_load:
  "shelf_data s = PyDict kvs \<Longrightarrow> writable s \<Longrightarrow> json_dump (PyDict (py_update kvs x)) = Some v \<Longrightarrow>
     shelf_data (MyShelf_load d (MyShelf_save json_dump x s)) = v"
  by (simp add: MyShelf_save_def MyShelf_load_def shelf_data_def Let_def)

lemma MyShelf_load_fallback:
  "disk s = Missing \<or> disk s = Unreadable \<Longrightarrow>
     data (MyShelf_load d s) = d \<and> heap (MyShelf_load d s) = heap s
     \<and> disk (MyShelf_load d s) = disk s \<and> writable (MyShelf_load d s) = writable s"
  by (auto simp: MyShelf_load_def)

lemma MyShelf_load_stored:
  "disk s = Stored v \<Longrightarrow> shelf_data (MyShelf_load d s) = v"
  by (simp add: MyShelf_load_def shelf_data_def)

lemma MyShelf_init_fallback:
  "f = Missing \<or> f = Unreadable \<Longrightarrow> d \<noteq> n \<Longrightarrow>
     shelf_data (MyShelf_init d h n path f w) = h d \<and> writable (MyShelf_init d h n path f w) = w"
  by (auto simp: MyShelf_init_def MyShelf_load_def shelf_data_def)

text \<open>
  C2, as stated, fails: with a settings file that holds the single key \<open>api_base\<close>, saving
  \<open>{"prompt": "a cat"}\<close> and loading again yields those two keys only, not the defaults
  merged with the saved mapping. The dictionary written has string keys in ascending order
  and string values, and \<open>json.load\<close> reads it back as it was written.
\<close>

theorem settings_round_trip_counterexample:
  "(let s0 = MyShelf_init 0 (\<lambda>a. PyDict STABLE_DIFF_AUTO1111_DEFAULT_SETTINGS) 1
               ''stable_diffusion_auto1111.json''
               (Stored (PyDict [(KStr ''api_base'', PyStr ''http://127.0.0.1:7860'')])) True;
        x = [(KStr ''prompt'', PyStr ''a cat'')];
        s2 = MyShelf_load 0 (MyShelf_save Some x s0)
    in shelf_data s2 =
         PyDict [(KStr ''api_base'', PyStr ''http://127.0.0.1:7860''),
                 (KStr ''prompt'', PyStr ''a cat'')]
       \<and> map_of (py_update STABLE_DIFF_AUTO1111_DEFAULT_SETTINGS x) (KStr ''steps'')
           = Some (PyInt 50)
       \<and> shelf_data s2 \<noteq> PyDict (py_update STABLE_DIFF_AUTO1111_DEFAULT_SETTINGS x))"
  by (simp add: Let_def MyShelf_init_def MyShelf_load_def MyShelf_save_def shelf_data_def
      py_update_def STABLE_DIFF_AUTO1111_DEFAULT_SETTINGS_def)

text \<open>
  C2, amended. Let \<open>self.data\<close> be a dictionary and the settings file be writable. After
  \<open>save(x)\<close>, \<open>load()\<close> yields the value that JSON reads back from the text written for the
  updated dictionary. When \<open>x\<close> has string keys and that value is a dictionary with the items
  of the updated dictionary, \<open>load()\<close> yields the mapping that was in memory before the save,
  merged with \<open>x\<close>; this is the default mapping merged with \<open>x\<close> when the shelf was created
  without a readable settings file. \<open>load()\<close> does not merge: it yields the persisted value
  alone when the file reads, and refers to the caller's default dictionary when the file is
  missing or unreadable. Neither operation raises.
\<close>

theorem settings_round_trip:
  "(shelf_data s = PyDict kvs \<and> writable s \<and> json_dump (PyDict (py_update kvs x)) = Some v \<longrightarrow>
      shelf_data (MyShelf_load d (MyShelf_save json_dump x s)) = v)
   \<and> (shelf_data s = PyDict kvs \<and> writable s \<and> str_keys x
        \<and> json_dump (PyDict (py_update kvs x)) = Some (PyDict u)
        \<and> map_of u = map_of (py_update kvs x) \<longrightarrow>
        shelf_data (MyShelf_load d (MyShelf_save json_dump x s)) = PyDict u
        \<and> map_of u = map_of kvs ++ map_of (rev x))
   \<and> (disk s = Missing \<or> disk s = Unreadable \<longrightarrow>
        data (MyShelf_load d s) = d \<and> shelf_data (MyShelf_load d s) = heap s d)
   \<and> (disk s = Stored w \<longrightarrow> shelf_data (MyShelf_load d s) = w)
   \<and> ((f = Missing \<or> f = Unreadable) \<and> d \<noteq> n \<and> h d = PyDict D \<and> str_keys x
        \<and> json_dump (PyDict (py_update D x)) = Some (PyDict u')
        \<and> map_of u' = map_of (py_update D x) \<longrightarrow>
        shelf_data (MyShelf_load d' (MyShelf_save json_dump x (MyShelf_init d h n path f True)))
          = PyDict u'
        \<and> map_of u' = map_of D ++ map_of (rev x))"
proof -
  have a: "shelf_data s = PyDict kvs \<and> writable s \<and> json_dump (PyDict (py_update kvs x)) = Some v
      \<longrightarrow> shelf_data (MyShelf_load d (MyShelf_save json_dump x s)) = v"
    using MyShelf_save_load [of s kvs json_dump x v d] by blast
  have b: "shelf_data s = PyDict kvs \<and> writable s \<and> str_keys x
        \<and> json_dump (PyDict (py_update kvs x)) = Some (PyDict u)
        \<and> map_of u = map_of (py_update kvs x) \<longrightarrow>
        shelf_data (MyShelf_load d (MyShelf_save json_dump x s)) = PyDict u
        \<and> map_of u = map_of kvs ++ map_of (rev x)"
    using MyShelf_save_load [of s kvs json_dump x "PyDict u" d] py_update_map_of [of x kvs]
    by simp
  have c: "disk s = Missing \<or> disk s = Unreadable \<longrightarrow>
        data (MyShelf_load d s) = d \<and> shelf_data (MyShelf_load d s) = heap s d"
    using MyShelf_load_fallback [of s d] by (auto simp: shelf_data_def)
  have e: "disk s = Stored w \<longrightarrow> shelf_data (MyShelf_load d s) = w"
    using MyShelf_load_stored [of s w d] by blast
  have g: "(f = Missing \<or> f = Unreadable) \<and> d \<noteq> n \<and> h d = PyDict D \<and> str_keys x
        \<and> json_dump (PyDict (py_update D x)) = Some (PyDict u')
        \<and> map_of u' = map_of (py_update D x) \<longrightarrow>
        shelf_data (MyShelf_load d' (MyShelf_save json_dump x (MyShelf_init d h n path f True)))
          = PyDict u'
        \<and> map_of u' = map_of D ++ map_of (rev x)"
    using MyShelf_init_fallback [of f d n h path True]
      MyShelf_save_load [of "MyShelf_init d h n path f True" D json_dump x "PyDict u'" d']
      py_update_map_of [of x D]
    by simp
  show ?thesis using a b c e g by blast
qed

theorem settings_round_trip_witness:
  "(let s = \<lparr>heap = (\<lambda>a. PyDict [(KStr ''seed'', PyInt 7)]), next_addr = 1, data = 0,
             file_path = ''stable_diffusion_auto1111.json'',
             disk = Stored (PyDict [(KStr ''seed'', PyInt 7)]), writable = True,
             shelf_log = []\<rparr>;
        x = [(KStr ''prompt'', PyStr ''a cat'')];
        json = (\<lambda>v. if v = PyDict [(KStr ''seed'', PyInt 7), (KStr ''prompt'', PyStr ''a cat'')]
                     then Some (PyDict [(KStr ''prompt'', PyStr ''a cat''), (KStr ''seed'', PyInt 7)])
                     else Some v);
        D = STABLE_DIFF_AUTO1111_DEFAULT_SETTINGS
    in shelf_data s = PyDict [(KStr ''seed'', PyInt 7)] \<and> writable s \<and> str_keys x
       \<and> shelf_data (MyShelf_load 0 (MyShelf_save json x s))
           = PyDict [(KStr ''prompt'', PyStr ''a cat''), (KStr ''seed'', PyInt 7)]
       \<and> map_of [(KStr ''prompt'', PyStr ''a cat''), (KStr ''seed'', PyInt 7)]
           = map_of [(KStr ''seed'', PyInt 7)] ++ map_of (rev x)
       \<and> shelf_data (MyShelf_load 0 s) = PyDict [(KStr ''seed'', PyInt 7)]
       \<and> data (MyShelf_load 0 (s\<lparr>disk := Unreadable\<rparr>)) = 0
       \<and> shelf_data (MyShelf_load 0 (s\<lparr>disk := Unreadable\<rparr>)) = PyDict [(KStr ''seed'', PyInt 7)]
       \<and> shelf_data (MyShelf_load 0 (MyShelf_save json x
            (MyShelf_init 0 (\<lambda>a. PyDict D) 1 ''stable_diffusion_auto1111.json'' Missing True)))
           = PyDict (py_update D x)
       \<and> map_of (py_update D x) = map_of D ++ map_of (rev x))"
proof -
  let ?kvs = "[(KStr ''seed'', PyInt 7)]"
  let ?u = "[(KStr ''prompt'', PyStr ''a cat''), (KStr ''seed'', PyInt 7)]"
  let ?s = "\<lparr>heap = (\<lambda>a. PyDict ?kvs), next_addr = 1, data = 0,
             file_path = ''stable_diffusion_auto1111.json'',
             disk = Stored (PyDict ?kvs), writable = True, shelf_log = []\<rparr>"
  let ?x = "[(KStr ''prompt'', PyStr ''a cat'')]"
  let ?json = "\<lambda>v. if v = PyDict [(KStr ''seed'', PyInt 7), (KStr ''prompt'', PyStr ''a cat'')]
                     then Some (PyDict ?u) else Some v"
  let ?D = STABLE_DIFF_AUTO1111_DEFAULT_SETTINGS
  let ?h = "\<lambda>a::nat. PyDict ?D"
  have sd: "shelf_data ?s = PyDict ?kvs" by (simp add: shelf_data_def)
  have w: "writable ?s" by simp
  have sx: "str_keys ?x" by (simp add: str_keys_def)
  have upd: "py_update ?kvs ?x = [(KStr ''seed'', PyInt 7), (KStr ''prompt'', PyStr ''a cat'')]"
    by (simp add: py_update_def)
  have j: "?json (PyDict (py_update ?kvs ?x)) = Some (PyDict ?u)"
    by (simp add: upd)
  have mu: "map_of ?u = map_of (py_update ?kvs ?x)"
    unfolding upd by (rule ext) simp
  have updD: "py_update ?D ?x \<noteq> [(KStr ''seed'', PyInt 7), (KStr ''prompt'', PyStr ''a cat'')]"
    by (simp add: py_update_def STABLE_DIFF_AUTO1111_DEFAULT_SETTINGS_def)
  have jD: "?json (PyDict (py_update ?D ?x)) = Some (PyDict (py_update ?D ?x))"
    using updD by simp
  have r1: "shelf_data (MyShelf_load 0 (MyShelf_save ?json ?x ?s)) = PyDict ?u
            \<and> map_of ?u = map_of ?kvs ++ map_of (rev ?x)"
    using settings_round_trip [where s = ?s and kvs = ?kvs and x = ?x and json_dump = ?json
        and u = ?u and d = 0] sd w sx j mu
    by blast
  have r2: "shelf_data (MyShelf_load 0 ?s) = PyDict ?kvs"
    using settings_round_trip [where s = ?s and w = "PyDict ?kvs" and d = 0] by simp
  have r3: "data (MyShelf_load 0 (?s\<lparr>disk := Unreadable\<rparr>)) = 0
            \<and> shelf_data (MyShelf_load 0 (?s\<lparr>disk := Unreadable\<rparr>)) = PyDict ?kvs"
    using settings_round_trip [where s = "?s\<lparr>disk := Unreadable\<rparr>" and d = 0] by simp
  have r4: "shelf_data (MyShelf_load 0 (MyShelf_save ?json ?x
              (MyShelf_init 0 ?h 1 ''stable_diffusion_auto1111.json'' Missing True)))
              = PyDict (py_update ?D ?x)
            \<and> map_of (py_update ?D ?x) = map_of ?D ++ map_of (rev ?x)"
    using settings_round_trip [where f = Missing and d = 0 and n = 1 and h = ?h and D = ?D
        and x = ?x and json_dump = ?json and u' = "py_update ?D ?x" and d' = 0
        and path = "''stable_diffusion_auto1111.json''"] sx jD
    by simp
  show ?thesis
    unfolding Let_def using sd w sx r1 r2 r3 r4 by blast
qed


section \<open>Frame of the control unit extractor\<close>

lemma as_strings_deeply_dict:
  "\<exists>kvs'. as_strings_deeply (PyDict kvs) = PyDict kvs'"
  by simp

lemmas get_control_net_params_defs =
  get_control_net_params_def LayerLocal_def LayerLocal_load_data_def LayerLocal_copy_def
  LayerLocal_insert_def LayerLocal_resize_to_multiple_of_def LayerLocal_to_base64_def
  LayerLocal_mask_to_base64_def LayerLocal_remove_def


lemma get_control_net_params_raises:
  assumes "get_control_net_params export export_mask (Some h) g = (Inl e, g')"
  shows "stack g' = stack g \<or> stack g' = next_layer g # stack g"
  using assms
  by (auto simp: get_control_net_params_defs Let_def
      split: sum.splits pyval.splits option.splits if_splits)











section \<open>Layers made from a response\<close>

lemma generated_step:
  assumes "file_load im = Some t"
  shows "LayerLocal_from_base64 file_load im g =
           Inr (\<lparr>ll_id = layer_count g, ll_layer = next_layer g\<rparr>,
                g\<lparr>objs := (objs g)(next_layer g :=
                       \<lparr>layer_name = ''generated.png'', layer_width = fst t,
                        layer_height = fst (snd t), layer_pixels = snd (snd t),
                        layer_mask = None, layer_parasite = None\<rparr>),
                  next_layer := next_layer g + 1, layer_count := layer_count g + 1\<rparr>)"
  using assms by (cases t) (simp add: LayerLocal_from_base64_def LayerLocal_def Let_def)

lemma response_loop_run:
  assumes "\<forall>im \<in> set rest. file_load im \<noteq> None"
    and "length (all_seeds r) \<le> length (infotexts r)"
    and "rest = drop index (images r)"
  shows "\<exists>g'. response_loop file_load r opts index rest g layers =
            (if made_count (insert_annotators opts) (length (all_seeds r)) index (length rest)
                  < length rest then Some AttributeError else None,
             g',
             layers @ [next_layer g ..< next_layer g
                 + made_count (insert_annotators opts) (length (all_seeds r)) index (length rest)])
          \<and> stack g' = rev [next_layer g ..< next_layer g
                 + made_count (insert_annotators opts) (length (all_seeds r)) index (length rest)]
               @ stack g
          \<and> gimp_log g' = gimp_log g
          \<and> (\<forall>i < next_layer g. objs g' i = objs g i)
          \<and> (\<forall>j < made_count (insert_annotators opts) (length (all_seeds r)) index (length rest).
                Some (objs g' (next_layer g + j)) = materialized file_load r (index + j))"
  using assms
proof (induction rest arbitrary: index g layers)
  case Nil
  then show ?case by (simp add: made_count_def)
next
  case (Cons im rest)
  let ?K = "length (all_seeds r)"
  let ?n = "next_layer g"
  from Cons.prems(1) obtain t where t: "file_load im = Some t" by auto
  have idx: "index < length (images r)"
  proof (rule ccontr)
    assume "\<not> index < length (images r)"
    then have "drop index (images r) = []" by simp
    with Cons.prems(3) show False by simp
  qed
  have "images r ! index # drop (Suc index) (images r) = im # rest"
    using Cons_nth_drop_Suc [OF idx] Cons.prems(3) by simp
  then have im: "images r ! index = im" and rest: "rest = drop (Suc index) (images r)"
    by simp_all
  have mat0: "materialized file_load r index =
      Some (if index < ?K then generated_layer t (infotexts r ! index) (all_seeds r ! index)
            else annotator_layer t)"
    by (simp add: materialized_def im t)
  show ?case
  proof (cases "index < ?K")
    case True
    define g4 where "g4 = g\<lparr>next_layer := ?n + 1, layer_count := layer_count g + 1,
        objs := (objs g)(?n := generated_layer t (infotexts r ! index) (all_seeds r ! index)),
        stack := ?n # stack g\<rparr>"
    have info: "py_getitem (infotexts r) (int index) = Inr (infotexts r ! index)"
      using True Cons.prems(2) by (simp add: py_getitem_def)
    have step: "response_loop file_load r opts index (im # rest) g layers =
                response_loop file_load r opts (Suc index) rest g4 (layers @ [?n])"
      using True info
      by (simp add: generated_step [of file_load im t g, OF t] Let_def LayerLocal_rename_def LayerLocal_save_data_def
          LayerLocal_insert_def g4_def generated_layer_def)
    have mc: "made_count (insert_annotators opts) ?K index (length (im # rest)) =
              Suc (made_count (insert_annotators opts) ?K (Suc index) (length rest))"
      using True by (auto simp: made_count_def)
    from Cons.IH [of "Suc index" g4 "layers @ [?n]"] Cons.prems rest
    obtain g' where ih:
      "response_loop file_load r opts (Suc index) rest g4 (layers @ [?n]) =
         (if made_count (insert_annotators opts) ?K (Suc index) (length rest) < length rest
          then Some AttributeError else None, g',
          (layers @ [?n]) @ [next_layer g4 ..< next_layer g4
              + made_count (insert_annotators opts) ?K (Suc index) (length rest)])"
      "stack g' = rev [next_layer g4 ..< next_layer g4
              + made_count (insert_annotators opts) ?K (Suc index) (length rest)] @ stack g4"
      "gimp_log g' = gimp_log g4"
      "\<forall>i < next_layer g4. objs g' i = objs g4 i"
      "\<forall>j < made_count (insert_annotators opts) ?K (Suc index) (length rest).
          Some (objs g' (next_layer g4 + j)) = materialized file_load r (Suc index + j)"
      by auto
    have n4: "next_layer g4 = Suc ?n" and s4: "stack g4 = ?n # stack g"
      and l4: "gimp_log g4 = gimp_log g"
      and o4: "objs g4 = (objs g)(?n := generated_layer t (infotexts r ! index) (all_seeds r ! index))"
      by (simp_all add: g4_def)
    have objs_new: "\<forall>j < Suc (made_count (insert_annotators opts) ?K (Suc index) (length rest)).
          Some (objs g' (?n + j)) = materialized file_load r (index + j)"
    proof (intro allI impI)
      fix j assume j: "j < Suc (made_count (insert_annotators opts) ?K (Suc index) (length rest))"
      show "Some (objs g' (?n + j)) = materialized file_load r (index + j)"
      proof (cases j)
        case 0
        then show ?thesis using ih(4) n4 o4 mat0 True by simp
      next
        case (Suc j')
        then show ?thesis using ih(5) j n4 by simp
      qed
    qed
    show ?thesis
      unfolding step mc
      using ih(1) ih(2) ih(3) ih(4) objs_new n4 s4 l4 o4
      by (intro exI [of _ g']) (auto simp: upt_conv_Cons)
  next
    case False
    show ?thesis
    proof (cases "insert_annotators opts")
      case ins: True
      define g3 where "g3 = g\<lparr>next_layer := ?n + 1, layer_count := layer_count g + 1,
        objs := (objs g)(?n := annotator_layer t), stack := ?n # stack g\<rparr>"
      have step: "response_loop file_load r opts index (im # rest) g layers =
                response_loop file_load r opts (Suc index) rest g3 (layers @ [?n])"
        using False ins
        by (simp add: generated_step [of file_load im t g, OF t] Let_def LayerLocal_rename_def
            LayerLocal_insert_def g3_def annotator_layer_def)
      have mc: "made_count (insert_annotators opts) ?K index (length (im # rest)) =
              Suc (made_count (insert_annotators opts) ?K (Suc index) (length rest))"
        using ins by (auto simp: made_count_def)
      from Cons.IH [of "Suc index" g3 "layers @ [?n]"] Cons.prems rest
      obtain g' where ih:
        "response_loop file_load r opts (Suc index) rest g3 (layers @ [?n]) =
         (if made_count (insert_annotators opts) ?K (Suc index) (length rest) < length rest
          then Some AttributeError else None, g',
          (layers @ [?n]) @ [next_layer g3 ..< next_layer g3
              + made_count (insert_annotators opts) ?K (Suc index) (length rest)])"
        "stack g' = rev [next_layer g3 ..< next_layer g3
              + made_count (insert_annotators opts) ?K (Suc index) (length rest)] @ stack g3"
        "gimp_log g' = gimp_log g3"
        "\<forall>i < next_layer g3. objs g' i = objs g3 i"
        "\<forall>j < made_count (insert_annotators opts) ?K (Suc index) (length rest).
          Some (objs g' (next_layer g3 + j)) = materialized file_load r (Suc index + j)"
        by auto
      have n4: "next_layer g3 = Suc ?n" and s4: "stack g3 = ?n # stack g"
        and l4: "gimp_log g3 = gimp_log g"
        and o4: "objs g3 = (objs g)(?n := annotator_layer t)"
        by (simp_all add: g3_def)
      have objs_new: "\<forall>j < Suc (made_count (insert_annotators opts) ?K (Suc index) (length rest)).
          Some (objs g' (?n + j)) = materialized file_load r (index + j)"
      proof (intro allI impI)
        fix j assume j: "j < Suc (made_count (insert_annotators opts) ?K (Suc index) (length rest))"
        show "Some (objs g' (?n + j)) = materialized file_load r (index + j)"
        proof (cases j)
          case 0
          then show ?thesis using ih(4) n4 o4 mat0 False by simp
        next
          case (Suc j')
          then show ?thesis using ih(5) j n4 by simp
        qed
      qed
      show ?thesis
        unfolding step mc
        using ih(1) ih(2) ih(3) ih(4) objs_new n4 s4 l4 o4
        by (intro exI [of _ g']) (auto simp: upt_conv_Cons)
    next
      case noins: False
      have mc: "made_count (insert_annotators opts) ?K index (length (im # rest)) = 0"
        using False noins by (simp add: made_count_def)
      show ?thesis
        unfolding mc using False noins by (intro exI [of _ g]) simp
    qed
  qed
qed

lemma tagged_count:
  assumes KM: "K \<le> M"
    and gen: "\<forall>j < K. layer_parasite (objs g' (n + j)) \<noteq> None"
    and ann: "\<forall>j. K \<le> j \<and> j < M \<longrightarrow> layer_parasite (objs g' (n + j)) = None"
  shows "length (filter (\<lambda>i. layer_parasite (objs g' i) \<noteq> None) [n ..< n + M]) = K"
proof -
  let ?P = "\<lambda>i. layer_parasite (objs g' i) \<noteq> None"
  have "n + K + (M - K) = n + M" using KM by simp
  then have split: "[n ..< n + M] = [n ..< n + K] @ [n + K ..< n + M]"
    using upt_add_eq_append [of n "n + K" "M - K"] by simp
  have f1: "filter ?P [n ..< n + K] = [n ..< n + K]"
  proof (rule filter_True, intro ballI)
    fix i assume "i \<in> set [n ..< n + K]"
    then have "i = n + (i - n)" and "i - n < K" by auto
    then show "?P i" using gen by metis
  qed
  have f2: "filter ?P [n + K ..< n + M] = []"
  proof (rule filter_False, intro ballI)
    fix i assume "i \<in> set [n + K ..< n + M]"
    then have "i = n + (i - n)" and "K \<le> i - n" and "i - n < M" by auto
    then show "\<not> ?P i" using ann by metis
  qed
  have "filter ?P [n ..< n + M] = [n ..< n + K]"
    by (simp only: split filter_append f1 f2 append_Nil2)
  then show ?thesis by simp
qed

lemma ResponseLayers_run:
  assumes par: "length (infotexts r) = length (all_seeds r)"
    and le: "length (all_seeds r) \<le> length (images r)"
    and ld: "\<forall>im \<in> set (images r). file_load im \<noteq> None"
    and Mdef: "M = (if insert_annotators opts then length (images r) else length (all_seeds r))"
  shows "stack (fst (ResponseLayers file_load r opts g))
           = rev [next_layer g ..< next_layer g + M] @ stack g
     \<and> snd (ResponseLayers file_load r opts g) = [next_layer g ..< next_layer g + M]
     \<and> (\<forall>i < next_layer g. objs (fst (ResponseLayers file_load r opts g)) i = objs g i)
     \<and> (\<forall>j < M. Some (objs (fst (ResponseLayers file_load r opts g)) (next_layer g + j))
            = materialized file_load r j)"
proof -
  have mc: "made_count (insert_annotators opts) (length (all_seeds r)) 0 (length (images r)) = M"
    using le by (simp add: made_count_def Mdef)
  from response_loop_run [of "images r" file_load r 0 opts g "[]"] ld par
  obtain g' where run:
    "response_loop file_load r opts 0 (images r) g [] =
       (if M < length (images r) then Some AttributeError else None, g',
        [next_layer g ..< next_layer g + M])"
    "stack g' = rev [next_layer g ..< next_layer g + M] @ stack g"
    "\<forall>i < next_layer g. objs g' i = objs g i"
    "\<forall>j < M. Some (objs g' (next_layer g + j)) = materialized file_load r j"
    unfolding mc by auto
  show ?thesis
    using run by (simp add: ResponseLayers_def)
qed

text \<open>
  C1, as stated, fails: for a response with two images and one seed, materialized with no
  options at all, the second image is an annotator image and the caller has set no skip
  flag, yet only the generated layer is put into the image.
\<close>

theorem response_layers_counterexample:
  "Map.empty ''skip_annotator_layers'' = (None :: pyval option)
   \<and> stack (fst (ResponseLayers (\<lambda>b. Some (8, 8, b))
        \<lparr>images = [''aW1n'', ''YW5u''], infotexts = [''a cat''], all_seeds = [42]\<rparr>
        Map.empty
        \<lparr>objs = (\<lambda>i. annotator_layer (0, 0, [])), stack = [], next_layer = 0,
          layer_count = 1, gimp_log = []\<rparr>)) = [0]"
  by (simp add: ResponseLayers_def insert_annotators_def LayerLocal_from_base64_def
      LayerLocal_def LayerLocal_rename_def LayerLocal_save_data_def LayerLocal_insert_def
      py_getitem_def Let_def)

text \<open>
  C1, amended. For every decoded response whose \<open>N\<close> images all load and whose \<open>info\<close>
  carries \<open>K \<le> N\<close> seeds with as many info texts, materialization creates exactly \<open>K\<close> new
  layers that carry the seed and the info text as metadata and are named from the seed: of
  the layers it makes, those with metadata number \<open>K\<close>.
  Each of the remaining \<open>N - K\<close> images is inserted as an annotator layer without metadata
  when the options hold \<open>skip_annotator_layers\<close> with a false value; when that value is
  true, or the options do not hold the key, none of them is inserted.
\<close>

theorem response_layers_materialized:
  "length (infotexts r) = length (all_seeds r)
   \<and> length (all_seeds r) \<le> length (images r)
   \<and> (\<forall>im \<in> set (images r). file_load im \<noteq> None)
   \<and> M = (if (\<exists>v. opts ''skip_annotator_layers'' = Some v \<and> \<not> truthy v)
           then length (images r) else length (all_seeds r)) \<longrightarrow>
     stack (fst (ResponseLayers file_load r opts g))
       = rev [next_layer g ..< next_layer g + M] @ stack g
     \<and> snd (ResponseLayers file_load r opts g) = [next_layer g ..< next_layer g + M]
     \<and> (\<forall>i < next_layer g. objs (fst (ResponseLayers file_load r opts g)) i = objs g i)
     \<and> (\<forall>j < length (all_seeds r).
          \<exists>im. file_load (images r ! j) = Some im
            \<and> objs (fst (ResponseLayers file_load r opts g)) (next_layer g + j)
                = generated_layer im (infotexts r ! j) (all_seeds r ! j))
     \<and> (\<forall>j. length (all_seeds r) \<le> j \<and> j < M \<longrightarrow>
          (\<exists>im. file_load (images r ! j) = Some im
            \<and> objs (fst (ResponseLayers file_load r opts g)) (next_layer g + j)
                = annotator_layer im))
     \<and> length (filter (\<lambda>i. layer_parasite (objs (fst (ResponseLayers file_load r opts g)) i) \<noteq> None)
                 (snd (ResponseLayers file_load r opts g)))
         = length (all_seeds r)"
proof (intro impI)
  assume a: "length (infotexts r) = length (all_seeds r)
   \<and> length (all_seeds r) \<le> length (images r)
   \<and> (\<forall>im \<in> set (images r). file_load im \<noteq> None)
   \<and> M = (if (\<exists>v. opts ''skip_annotator_layers'' = Some v \<and> \<not> truthy v)
           then length (images r) else length (all_seeds r))"
  have ins: "insert_annotators opts \<longleftrightarrow> (\<exists>v. opts ''skip_annotator_layers'' = Some v \<and> \<not> truthy v)"
    by (auto simp: insert_annotators_def split: option.splits)
  from a have M: "M = (if insert_annotators opts then length (images r) else length (all_seeds r))"
    by (simp add: ins)
  from a have KM: "length (all_seeds r) \<le> M" and MN: "M \<le> length (images r)"
    by (auto split: if_splits)
  from a M ResponseLayers_run [where r = r and file_load = file_load and opts = opts and g = g
      and M = M]
  have run: "stack (fst (ResponseLayers file_load r opts g))
           = rev [next_layer g ..< next_layer g + M] @ stack g"
     "snd (ResponseLayers file_load r opts g) = [next_layer g ..< next_layer g + M]"
     "\<forall>i < next_layer g. objs (fst (ResponseLayers file_load r opts g)) i = objs g i"
     "\<forall>j < M. Some (objs (fst (ResponseLayers file_load r opts g)) (next_layer g + j))
            = materialized file_load r j"
    by blast+
  have gen: "\<forall>j < length (all_seeds r).
          \<exists>im. file_load (images r ! j) = Some im
            \<and> objs (fst (ResponseLayers file_load r opts g)) (next_layer g + j)
                = generated_layer im (infotexts r ! j) (all_seeds r ! j)"
  proof (intro allI impI)
    fix j assume j: "j < length (all_seeds r)"
    then have "j < M" using KM by simp
    with run(4) have "Some (objs (fst (ResponseLayers file_load r opts g)) (next_layer g + j))
            = materialized file_load r j" by blast
    then show "\<exists>im. file_load (images r ! j) = Some im
            \<and> objs (fst (ResponseLayers file_load r opts g)) (next_layer g + j)
                = generated_layer im (infotexts r ! j) (all_seeds r ! j)"
      using j by (auto simp: materialized_def split: option.splits)
  qed
  have ann: "\<forall>j. length (all_seeds r) \<le> j \<and> j < M \<longrightarrow>
          (\<exists>im. file_load (images r ! j) = Some im
            \<and> objs (fst (ResponseLayers file_load r opts g)) (next_layer g + j)
                = annotator_layer im)"
  proof (intro allI impI)
    fix j assume j: "length (all_seeds r) \<le> j \<and> j < M"
    with run(4) have "Some (objs (fst (ResponseLayers file_load r opts g)) (next_layer g + j))
            = materialized file_load r j" by blast
    then show "\<exists>im. file_load (images r ! j) = Some im
            \<and> objs (fst (ResponseLayers file_load r opts g)) (next_layer g + j)
                = annotator_layer im"
      using j by (auto simp: materialized_def split: option.splits)
  qed
  have "length (filter (\<lambda>i. layer_parasite (objs (fst (ResponseLayers file_load r opts g)) i) \<noteq> None)
                 [next_layer g ..< next_layer g + M])
         = length (all_seeds r)"
  proof (rule tagged_count [OF KM])
    show "\<forall>j < length (all_seeds r).
            layer_parasite (objs (fst (ResponseLayers file_load r opts g)) (next_layer g + j)) \<noteq> None"
      using gen by (auto simp: generated_layer_def)
    show "\<forall>j. length (all_seeds r) \<le> j \<and> j < M \<longrightarrow>
            layer_parasite (objs (fst (ResponseLayers file_load r opts g)) (next_layer g + j)) = None"
      using ann by (auto simp: annotator_layer_def)
  qed
  then have cnt: "length (filter (\<lambda>i. layer_parasite (objs (fst (ResponseLayers file_load r opts g)) i) \<noteq> None)
                 (snd (ResponseLayers file_load r opts g)))
         = length (all_seeds r)"
    by (simp only: run(2))
  show "stack (fst (ResponseLayers file_load r opts g))
       = rev [next_layer g ..< next_layer g + M] @ stack g
     \<and> snd (ResponseLayers file_load r opts g) = [next_layer g ..< next_layer g + M]
     \<and> (\<forall>i < next_layer g. objs (fst (ResponseLayers file_load r opts g)) i = objs g i)
     \<and> (\<forall>j < length (all_seeds r).
          \<exists>im. file_load (images r ! j) = Some im
            \<and> objs (fst (ResponseLayers file_load r opts g)) (next_layer g + j)
                = generated_layer im (infotexts r ! j) (all_seeds r ! j))
     \<and> (\<forall>j. length (all_seeds r) \<le> j \<and> j < M \<longrightarrow>
          (\<exists>im. file_load (images r ! j) = Some im
            \<and> objs (fst (ResponseLayers file_load r opts g)) (next_layer g + j)
                = annotator_layer im))
     \<and> length (filter (\<lambda>i. layer_parasite (objs (fst (ResponseLayers file_load r opts g)) i) \<noteq> None)
                 (snd (ResponseLayers file_load r opts g)))
         = length (all_seeds r)"
    using run(1,2,3) gen ann cnt by blast
qed

theorem response_layers_materialized_witness:
  "(let fl = (\<lambda>b. Some (8, 8, b));
        r = \<lparr>images = [''aW1n'', ''YW5u''], infotexts = [''a cat''], all_seeds = [42]\<rparr>;
        g = \<lparr>objs = (\<lambda>i. annotator_layer (0, 0, [])), stack = [], next_layer = 0,
             layer_count = 1, gimp_log = []\<rparr>;
        keep = [''skip_annotator_layers'' \<mapsto> PyBool False];
        skip = [''skip_annotator_layers'' \<mapsto> PyBool True]
    in length (infotexts r) = length (all_seeds r)
       \<and> length (all_seeds r) \<le> length (images r)
       \<and> (\<forall>im \<in> set (images r). fl im \<noteq> None)
       \<and> stack (fst (ResponseLayers fl r keep g)) = [1, 0]
       \<and> snd (ResponseLayers fl r keep g) = [0, 1]
       \<and> objs (fst (ResponseLayers fl r keep g)) 0 = generated_layer (8, 8, ''aW1n'') ''a cat'' 42
       \<and> objs (fst (ResponseLayers fl r keep g)) 1 = annotator_layer (8, 8, ''YW5u'')
       \<and> stack (fst (ResponseLayers fl r skip g)) = [0]
       \<and> objs (fst (ResponseLayers fl r skip g)) 0 = generated_layer (8, 8, ''aW1n'') ''a cat'' 42)"
proof -
  let ?fl = "\<lambda>b :: string. Some (8 :: int, 8 :: int, b)"
  let ?r = "\<lparr>images = [''aW1n'', ''YW5u''], infotexts = [''a cat''], all_seeds = [42]\<rparr>"
  let ?g = "\<lparr>objs = (\<lambda>i. annotator_layer (0, 0, [])), stack = [], next_layer = 0,
             layer_count = 1, gimp_log = []\<rparr>"
  let ?keep = "[''skip_annotator_layers'' \<mapsto> PyBool False]"
  let ?skip = "[''skip_annotator_layers'' \<mapsto> PyBool True]"
  have hyp: "length (infotexts ?r) = length (all_seeds ?r)
       \<and> length (all_seeds ?r) \<le> length (images ?r)
       \<and> (\<forall>im \<in> set (images ?r). ?fl im \<noteq> None)"
    by simp
  have mk: "(2::nat) = (if (\<exists>v. ?keep ''skip_annotator_layers'' = Some v \<and> \<not> truthy v)
                       then length (images ?r) else length (all_seeds ?r))"
    by simp
  have ms: "(1::nat) = (if (\<exists>v. ?skip ''skip_annotator_layers'' = Some v \<and> \<not> truthy v)
                       then length (images ?r) else length (all_seeds ?r))"
    by simp
  from response_layers_materialized [where r = ?r and file_load = ?fl and opts = ?keep
      and g = ?g and M = 2] hyp mk
  have k: "stack (fst (ResponseLayers ?fl ?r ?keep ?g)) = [1, 0]
     \<and> snd (ResponseLayers ?fl ?r ?keep ?g) = [0, 1]
     \<and> (\<forall>j < 1. \<exists>im. ?fl (images ?r ! j) = Some im
            \<and> objs (fst (ResponseLayers ?fl ?r ?keep ?g)) j
                = generated_layer im (infotexts ?r ! j) (all_seeds ?r ! j))
     \<and> (\<forall>j. 1 \<le> j \<and> j < 2 \<longrightarrow>
          (\<exists>im. ?fl (images ?r ! j) = Some im
            \<and> objs (fst (ResponseLayers ?fl ?r ?keep ?g)) j = annotator_layer im))"
    by simp
  from response_layers_materialized [where r = ?r and file_load = ?fl and opts = ?skip
      and g = ?g and M = 1] hyp ms
  have s: "stack (fst (ResponseLayers ?fl ?r ?skip ?g)) = [0]
     \<and> (\<forall>j < 1. \<exists>im. ?fl (images ?r ! j) = Some im
            \<and> objs (fst (ResponseLayers ?fl ?r ?skip ?g)) j
                = generated_layer im (infotexts ?r ! j) (all_seeds ?r ! j))"
    by simp
  have k0: "objs (fst (ResponseLayers ?fl ?r ?keep ?g)) 0 = generated_layer (8, 8, ''aW1n'') ''a cat'' 42"
    using k by auto
  have k1: "objs (fst (ResponseLayers ?fl ?r ?keep ?g)) 1 = annotator_layer (8, 8, ''YW5u'')"
  proof -
    from k have "\<exists>im. ?fl (images ?r ! 1) = Some im
            \<and> objs (fst (ResponseLayers ?fl ?r ?keep ?g)) 1 = annotator_layer im"
      by (elim conjE allE [of _ "1::nat"]) simp
    then show ?thesis by auto
  qed
  have s0: "objs (fst (ResponseLayers ?fl ?r ?skip ?g)) 0 = generated_layer (8, 8, ''aW1n'') ''a cat'' 42"
    using s by auto
  have ks: "stack (fst (ResponseLayers ?fl ?r ?keep ?g)) = [1, 0]"
    and kl: "snd (ResponseLayers ?fl ?r ?keep ?g) = [0, 1]"
    using k by simp_all
  have ss: "stack (fst (ResponseLayers ?fl ?r ?skip ?g)) = [0]"
    using s by simp
  show ?thesis
    unfolding Let_def using hyp ks kl k0 k1 ss s0 by blast
qed

end
